theory Spec2Isabelle
  imports Complex_Main
begin

section \<open>JavaScript strings\<close>

text \<open>
  A JavaScript string is a sequence of UTF-16 code units and \<open>length\<close> counts code
  units. A code unit is modelled as a natural number, a string as a list of them.
  All non-ASCII characters that occur in the source are in the Basic Multilingual Plane
  (one code unit each), except the two status icons, which are surrogate pairs.
\<close>

type_synonym jschar = nat
type_synonym jsstring = "jschar list"

definition str :: "string \<Rightarrow> jsstring" where
  "str s = map of_char s"

text \<open>
  The characters removed by \<open>String.prototype.trim\<close> and matched by \<open>\s\<close>:
  ECMAScript WhiteSpace and LineTerminator.
\<close>

definition whitespaceRanges :: "(jschar \<times> jschar) list" where
  "whitespaceRanges =
     [(0x09, 0x0D), (0x20, 0x20), (0xA0, 0xA0), (0x1680, 0x1680), (0x2000, 0x200A),
      (0x2028, 0x2029), (0x202F, 0x202F), (0x205F, 0x205F), (0x3000, 0x3000),
      (0xFEFF, 0xFEFF)]"

definition inRanges :: "(jschar \<times> jschar) list \<Rightarrow> jschar \<Rightarrow> bool" where
  "inRanges rs c = list_ex (\<lambda>(lo, hi). lo \<le> c \<and> c \<le> hi) rs"

definition isSpace :: "jschar \<Rightarrow> bool" where
  "isSpace c = inRanges whitespaceRanges c"

definition trim :: "jsstring \<Rightarrow> jsstring" where
  "trim s = rev (dropWhile isSpace (rev (dropWhile isSpace s)))"

text \<open>\<open>s.split(sep)\<close> for a one-character separator; \<open>''.split(sep)\<close> is \<open>['']\<close>.\<close>

fun splitAcc :: "jschar \<Rightarrow> jsstring \<Rightarrow> jsstring \<Rightarrow> jsstring list" where
  "splitAcc sep acc [] = [rev acc]"
| "splitAcc sep acc (c # cs) =
     (if c = sep then rev acc # splitAcc sep [] cs else splitAcc sep (c # acc) cs)"

definition splitLines :: "jsstring \<Rightarrow> jsstring list" where
  "splitLines text = splitAcc 0x0A [] text"

text \<open>\<open>xs.join(sep)\<close> on an array of strings.\<close>

fun join :: "jsstring \<Rightarrow> jsstring list \<Rightarrow> jsstring" where
  "join sep [] = []"
| "join sep [x] = x"
| "join sep (x # y # ys) = x @ sep @ join sep (y # ys)"

text \<open>
  \<open>s.substring(a, b)\<close>: both indices are clamped to \<open>[0, length]\<close> and swapped when
  \<open>a > b\<close>.
\<close>

definition substring :: "jsstring \<Rightarrow> int \<Rightarrow> int \<Rightarrow> jsstring" where
  "substring s a b =
     (let n = int (length s);
          a' = min (max a 0) n;
          b' = min (max b 0) n;
          from = min a' b';
          to = max a' b'
      in take (nat (to - from)) (drop (nat from) s))"

text \<open>Decimal rendering of an integer, as a template literal prints it.\<close>

function showNat :: "nat \<Rightarrow> jsstring" where
  "showNat n = (if n < 10 then [48 + n] else showNat (n div 10) @ [48 + n mod 10])"
  by pat_completeness auto
termination
  by (relation "measure id") auto

declare showNat.simps [simp del]

definition showInt :: "int \<Rightarrow> jsstring" where
  "showInt i = (if i < 0 then 45 # showNat (nat (- i)) else showNat (nat i))"

section \<open>Regular expressions\<close>

text \<open>
  The regular expressions of the source use character classes, greedy quantifiers on
  single classes, sequencing, one alternation of literals, capture groups that are neither
  nested nor quantified, and the anchors \<open>^\<close> (always first) and \<open>$\<close> (always last).
  The matcher below returns all ways to match in the priority order of a backtracking
  matcher, so the head of the list is the match that JavaScript reports.
\<close>

datatype cclass = In "(jschar \<times> jschar) list" | NotIn "(jschar \<times> jschar) list"

fun inClass :: "cclass \<Rightarrow> jschar \<Rightarrow> bool" where
  "inClass (In rs) c = inRanges rs c"
| "inClass (NotIn rs) c = (\<not> inRanges rs c)"

datatype regex =
    Empty
  | Atom cclass
  | Rep cclass nat "nat option"
  | Then regex regex
  | Alt regex regex
  | Group regex
  | Eol

text \<open>
  A greedy quantifier \<open>{lo,hi}\<close> on a class first takes as many characters as it can
  and gives them back one at a time: the possible rests, longest match first.
\<close>

definition repRests :: "cclass \<Rightarrow> nat \<Rightarrow> nat option \<Rightarrow> jsstring \<Rightarrow> jsstring list" where
  "repRests a lo hi s =
     (let n = length (takeWhile (inClass a) s);
          m = (case hi of None \<Rightarrow> n | Some h \<Rightarrow> min h n)
      in map (\<lambda>k. drop k s) (rev [lo ..< Suc m]))"

text \<open>
  A match state is the rest of the input and the captures made so far, in the order of
  the groups.
\<close>

type_synonym mstate = "jsstring \<times> jsstring list"

fun run :: "regex \<Rightarrow> mstate \<Rightarrow> mstate list" where
  "run Empty st = [st]"
| "run (Atom a) (s, caps) =
     (case s of [] \<Rightarrow> [] | c # cs \<Rightarrow> if inClass a c then [(cs, caps)] else [])"
| "run (Rep a lo hi) (s, caps) = map (\<lambda>r. (r, caps)) (repRests a lo hi s)"
| "run (Then r1 r2) st = concat (map (run r2) (run r1 st))"
| "run (Alt r1 r2) st = run r1 st @ run r2 st"
| "run (Group r) (s, caps) =
     map (\<lambda>(s', caps'). (s', caps' @ [take (length s - length s') s])) (run r (s, caps))"
| "run Eol (s, caps) = (if s = [] then [(s, caps)] else [])"

text \<open>
  \<open>s.match(/^.../)\<close>: the match array (whole match, then the captures), or \<open>None\<close>
  for \<open>null\<close>.
\<close>

definition matchStart :: "regex \<Rightarrow> jsstring \<Rightarrow> jsstring list option" where
  "matchStart r s =
     (case run r (s, []) of
        [] \<Rightarrow> None
      | (rest, caps) # _ \<Rightarrow> Some (take (length s - length rest) s # caps))"

definition seq :: "regex list \<Rightarrow> regex" where
  "seq rs = foldr Then rs Empty"

definition lit :: "jschar \<Rightarrow> regex" where
  "lit c = Atom (In [(c, c)])"

text \<open>
  A letter under the \<open>i\<close> flag (without the \<open>u\<close> flag) matches its upper and its
  lower case form; only ASCII letters occur in the case-insensitive patterns.
\<close>

definition swapCase :: "jschar \<Rightarrow> jschar" where
  "swapCase c = (if 65 \<le> c \<and> c \<le> 90 then c + 32 else if 97 \<le> c \<and> c \<le> 122 then c - 32 else c)"

definition wordI :: "jsstring \<Rightarrow> regex" where
  "wordI w = seq (map (\<lambda>c. Atom (In [(c, c), (swapCase c, swapCase c)])) w)"

definition space :: cclass where
  "space = In whitespaceRanges"

definition digit :: cclass where
  "digit = In [(48, 57)]"

text \<open>\<open>.\<close> matches everything but the line terminators.\<close>

definition dot :: cclass where
  "dot = NotIn [(0x0A, 0x0A), (0x0D, 0x0D), (0x2028, 0x2029)]"

definition oneOf :: "jschar list \<Rightarrow> cclass" where
  "oneOf cs = In (map (\<lambda>c. (c, c)) cs)"

text \<open>
  \<open>s.split(re)\<close> for a regular expression without capture groups whose matches are
  never empty (the only one the source splits on is \<open>/\n\s*\n/\<close>): at each index the
  expression is tried; a match closes the current piece and the search goes on behind it.
\<close>

function splitRegex :: "regex \<Rightarrow> jsstring \<Rightarrow> jsstring \<Rightarrow> jsstring list" where
  "splitRegex r acc [] = [rev acc]"
| "splitRegex r acc (c # cs) =
     (case matchStart r (c # cs) of
        None \<Rightarrow> splitRegex r (c # acc) cs
      | Some m \<Rightarrow>
          if hd m = [] then splitRegex r (c # acc) cs
          else rev acc # splitRegex r [] (drop (length (hd m)) (c # cs)))"
  by pat_completeness auto
termination
  by (relation "measure (\<lambda>(r, acc, s). length s)") auto

section \<open>Chapter segmentation\<close>

record chapter_t =
  title :: jsstring
  startLine :: nat
  content :: "jsstring list"

subsection \<open>Boundary rules\<close>

text \<open>The Chinese numerals of the first and the third rule.\<close>

definition cnNumerals :: "jschar list" where
  "cnNumerals = [0x4E00, 0x4E8C, 0x4E09, 0x56DB, 0x4E94, 0x516D, 0x4E03, 0x516B, 0x4E5D, 0x5341]"

text \<open>
  \<open>chapterPatterns\<close>, in the order of the source. \<open>0x7B2C\<close> and \<open>0x7AE0\<close> are the
  two characters of "chapter N" in Chinese, \<open>0xFF1A\<close> the full-width colon, \<open>0x3001\<close>
  the ideographic comma, \<open>0xFF0E\<close> the full-width full stop, and \<open>0x3010\<close>,
  \<open>0x3011\<close>, \<open>0x300A\<close>, \<open>0x300B\<close> the two pairs of brackets.
\<close>

definition chapterPatterns :: "regex list" where
  "chapterPatterns =
    [ seq [lit 0x7B2C, Rep (In ((48, 57) # map (\<lambda>c. (c, c)) cnNumerals)) 1 None, lit 0x7AE0,
           Rep space 0 None, Rep (oneOf [0xFF1A, 58, 45]) 0 (Some 1), Rep space 0 None,
           Group (Rep dot 1 None)],
      seq [lit 0x7B2C, Rep digit 1 None, lit 0x7AE0,
           Rep space 0 None, Rep (oneOf [0xFF1A, 58, 45]) 0 (Some 1), Rep space 0 None,
           Group (Rep dot 1 None)],
      seq [Rep (oneOf cnNumerals) 1 None, lit 0x3001, Rep space 0 None, Group (Rep dot 1 None)],
      seq [Rep digit 1 None, lit 46, Rep space 0 None, Group (Rep dot 1 None)],
      seq [Rep digit 1 None, Rep space 0 None, Atom (oneOf [0x3001, 0xFF0E, 46]),
           Rep space 0 None, Group (Rep dot 1 None)],
      seq [wordI (str ''Chapter''), Rep space 1 None, Rep digit 1 None, Rep space 0 None,
           Rep (oneOf [58, 45]) 0 (Some 1), Rep space 0 None, Group (Rep dot 1 None)],
      seq [wordI (str ''CHAPTER''), Rep space 1 None, Rep digit 1 None, Rep space 0 None,
           Rep (oneOf [58, 45]) 0 (Some 1), Rep space 0 None, Group (Rep dot 1 None)],
      seq [Rep (oneOf [61]) 3 None, Rep space 0 None, Group (Rep dot 1 None), Rep space 0 None,
           Rep (oneOf [61]) 3 None],
      seq [Rep (oneOf [45]) 3 None, Rep space 0 None, Group (Rep dot 1 None), Rep space 0 None,
           Rep (oneOf [45]) 3 None],
      seq [Rep (oneOf [42]) 3 None, Rep space 0 None, Group (Rep dot 1 None), Rep space 0 None,
           Rep (oneOf [42]) 3 None],
      seq [lit 0x3010, Group (Rep dot 1 None), lit 0x3011, Eol],
      seq [lit 0x300A, Group (Rep dot 1 None), lit 0x300B, Eol],
      seq [Group (Rep digit 1 None), Rep space 0 None, Atom (oneOf [0x3001, 0xFF0E, 46]),
           Rep space 0 None, Group (Rep dot 1 None)],
      seq [Group (Rep digit 1 None), Rep space 1 None, Group (Rep dot 1 None)] ]"

text \<open>The inner loop over the patterns: the first one that matches wins.\<close>

fun firstMatch :: "regex list \<Rightarrow> jsstring \<Rightarrow> jsstring list option" where
  "firstMatch [] line = None"
| "firstMatch (p # ps) line =
     (case matchStart p line of Some m \<Rightarrow> Some m | None \<Rightarrow> firstMatch ps line)"

text \<open>
  \<open>chapterTitle.replace(/^\s*[:-]\s*/, '').trim()\<close>, the class also holding the
  full-width colon.
\<close>

definition titlePrefix :: regex where
  "titlePrefix = seq [Rep space 0 None, Atom (oneOf [0xFF1A, 58, 45]), Rep space 0 None]"

definition cleanTitle :: "jsstring \<Rightarrow> jsstring" where
  "cleanTitle t =
     trim (case matchStart titlePrefix t of None \<Rightarrow> t | Some m \<Rightarrow> drop (length (hd m)) t)"

text \<open>
  \<open>match[match.length - 1] || match[0]\<close>: the last capture, or the whole match when
  that capture is the empty string.
\<close>

definition matchTitle :: "jsstring list \<Rightarrow> jsstring" where
  "matchTitle m = cleanTitle (if last m = [] then hd m else last m)"

text \<open>
  The two extra tests for short lines: \<open>/^[A-Z\s\d\-_]+$/\<close> and the words that
  open front and back matter.
\<close>

definition upperCaseLine :: regex where
  "upperCaseLine =
     seq [Rep (In ([(65, 90)] @ whitespaceRanges @ [(48, 57), (45, 45), (95, 95)])) 1 None, Eol]"

definition titleKeywords :: "jsstring list" where
  "titleKeywords =
     [[0x5E8F, 0x8A00], [0x524D, 0x8A00], [0x5F15, 0x8A00], [0x7ED3, 0x8BED], [0x9644, 0x5F55],
      [0x76EE, 0x5F55], [0x7D22, 0x5F15], [0x53C2, 0x8003, 0x6587, 0x732E], [0x81F4, 0x8C22]]"

definition keywordLine :: regex where
  "keywordLine = Group (foldr Alt (map wordI titleKeywords) (Atom (In [])))"

text \<open>
  The test of one trimmed, non-empty line: \<open>Some title\<close> when the line opens a chapter
  (\<open>isChapter\<close>), \<open>None\<close> otherwise.
\<close>

definition chapterTitleOf :: "jsstring \<Rightarrow> jsstring option" where
  "chapterTitleOf line =
     (case firstMatch chapterPatterns line of
        Some m \<Rightarrow> Some (matchTitle m)
      | None \<Rightarrow>
          if length line > 2 \<and> length line < 50 then
            (if matchStart upperCaseLine line \<noteq> None then Some line
             else if matchStart keywordLine line \<noteq> None then Some line
             else None)
          else None)"

subsection \<open>The heuristic segmenter\<close>

text \<open>
  The loop of \<open>_extractChapters\<close> over the lines: \<open>i\<close> is the index of the line,
  \<open>cur\<close> the open chapter (\<open>currentChapter\<close>, \<open>None\<close> for \<open>null\<close>) and \<open>chs\<close> the
  chapters closed so far.
\<close>

definition pushOpen :: "chapter_t option \<Rightarrow> chapter_t list \<Rightarrow> chapter_t list" where
  "pushOpen cur chs = (case cur of None \<Rightarrow> chs | Some c \<Rightarrow> chs @ [c])"

fun extractLoop :: "nat \<Rightarrow> jsstring list \<Rightarrow> chapter_t option \<Rightarrow> chapter_t list \<Rightarrow> chapter_t list" where
  "extractLoop i [] cur chs = pushOpen cur chs"
| "extractLoop i (l # ls) cur chs =
     (let line = trim l in
      if line = [] then extractLoop (Suc i) ls cur chs
      else
        (case chapterTitleOf line of
           Some t \<Rightarrow>
             extractLoop (Suc i) ls (Some \<lparr>title = t, startLine = i, content = []\<rparr>)
               (pushOpen cur chs)
         | None \<Rightarrow>
             (case cur of
                Some c \<Rightarrow>
                  if length line > 5
                  then extractLoop (Suc i) ls (Some (c\<lparr>content := content c @ [line]\<rparr>)) chs
                  else extractLoop (Suc i) ls cur chs
              | None \<Rightarrow> extractLoop (Suc i) ls cur chs)))"

definition extractChapters :: "jsstring \<Rightarrow> chapter_t list" where
  "extractChapters text = extractLoop 0 (splitLines text) None []"

subsection \<open>The fallback segmenter\<close>

definition emptyTitle :: jsstring where
  "emptyTitle = [0xFF08, 0x7A7A, 0x5185, 0x5BB9, 0xFF09]"

definition noTitle :: jsstring where
  "noTitle = [0xFF08, 0x65E0, 0x6807, 0x9898, 0xFF09]"

definition nonBlank :: "jsstring \<Rightarrow> bool" where
  "nonBlank s = (length (trim s) > 0)"

text \<open>\<open>/\n\s*\n/\<close>, the paragraph separator.\<close>

definition paragraphBreak :: regex where
  "paragraphBreak = seq [lit 0x0A, Rep space 0 None, lit 0x0A]"

text \<open>\<open>s.replace(/\s+/g, ' ')\<close>: every run of white space becomes one space.\<close>

function collapseSpaces :: "jsstring \<Rightarrow> jsstring" where
  "collapseSpaces [] = []"
| "collapseSpaces (c # cs) =
     (if isSpace c then 0x20 # collapseSpaces (dropWhile isSpace cs) else c # collapseSpaces cs)"
  by pat_completeness auto
termination
  by (relation "measure length") (auto simp: length_dropWhile_le less_Suc_eq_le)

text \<open>The first ten characters, followed by an ellipsis when something was cut.\<close>

definition shortTitle :: "jsstring \<Rightarrow> jsstring" where
  "shortTitle s = take 10 s @ (if length s > 10 then str ''...'' else [])"

definition orElse :: "jsstring \<Rightarrow> jsstring \<Rightarrow> jsstring" where
  "orElse t d = (if t = [] then d else t)"

definition paragraphChapter :: "jsstring \<Rightarrow> chapter_t list" where
  "paragraphChapter paragraph =
     (let lines = filter nonBlank (splitLines paragraph) in
      if length lines > 0
      then [\<lparr>title = orElse (shortTitle (trim (hd lines))) noTitle, startLine = 0, content = lines\<rparr>]
      else [])"

definition lineChapter :: "jsstring \<Rightarrow> chapter_t" where
  "lineChapter line =
     (let trimmedLine = trim line in
      \<lparr>title = orElse (shortTitle trimmedLine) noTitle, startLine = 0, content = [trimmedLine]\<rparr>)"

definition createFallbackChapters :: "jsstring \<Rightarrow> chapter_t list" where
  "createFallbackChapters text =
     (let paragraphs = filter nonBlank (splitRegex paragraphBreak [] text);
          chapters =
            (if length paragraphs = 0 then
               (let lines = filter nonBlank (splitLines text) in
                if length lines = 0 then
                  (let cleanContent = collapseSpaces (trim text) in
                   if length cleanContent = 0
                   then [\<lparr>title = emptyTitle, startLine = 0, content = []\<rparr>]
                   else [\<lparr>title = orElse (take 10 cleanContent) emptyTitle, startLine = 0,
                          content = [cleanContent]\<rparr>])
                else map lineChapter lines)
             else concat (map paragraphChapter paragraphs))
      in if length chapters = 0
         then [\<lparr>title = emptyTitle, startLine = 0, content = []\<rparr>]
         else chapters)"

definition extractChaptersWithFallback :: "jsstring \<Rightarrow> chapter_t list" where
  "extractChaptersWithFallback text =
     (let chapters = extractChapters text in
      if length chapters > 0 then chapters else createFallbackChapters text)"

subsection \<open>The heuristic segmenter of the earlier evolution\<close>

text \<open>
  \<open>_extractChapters\<close> of \<open>src/extension.js\<close>, the earlier evolution of the reader. The
  boundary rules and the clean-up of the title are the same. The loop has one more
  branch: a line of more than five characters that matches no rule, met while no chapter
  is open and none has been collected, opens a chapter with a fixed title that holds the
  line. After the loop an empty result is replaced: by one numbered chapter for each
  paragraph when the text has more than one paragraph, else by a single chapter that holds
  every non-blank line of the text.
\<close>

definition defaultTitle :: jsstring where
  "defaultTitle = [0x5F00, 0x59CB, 0x5185, 0x5BB9]"

definition wholeTextTitle :: jsstring where
  "wholeTextTitle = [0x5168, 0x6587, 0x5185, 0x5BB9]"

definition paragraphTitle :: "nat \<Rightarrow> jsstring" where
  "paragraphTitle n = [0x6BB5, 0x843D, 0x20] @ showNat n"

fun extractLoopEarlier :: "nat \<Rightarrow> jsstring list \<Rightarrow> chapter_t option \<Rightarrow> chapter_t list \<Rightarrow> chapter_t list" where
  "extractLoopEarlier i [] cur chs = pushOpen cur chs"
| "extractLoopEarlier i (l # ls) cur chs =
     (let line = trim l in
      if line = [] then extractLoopEarlier (Suc i) ls cur chs
      else
        (case chapterTitleOf line of
           Some t \<Rightarrow>
             extractLoopEarlier (Suc i) ls (Some \<lparr>title = t, startLine = i, content = []\<rparr>)
               (pushOpen cur chs)
         | None \<Rightarrow>
             (case cur of
                Some c \<Rightarrow>
                  if length line > 5
                  then extractLoopEarlier (Suc i) ls (Some (c\<lparr>content := content c @ [line]\<rparr>)) chs
                  else extractLoopEarlier (Suc i) ls cur chs
              | None \<Rightarrow>
                  if length line > 5 \<and> length chs = 0
                  then extractLoopEarlier (Suc i) ls
                         (Some \<lparr>title = defaultTitle, startLine = i, content = [line]\<rparr>) chs
                  else extractLoopEarlier (Suc i) ls cur chs)))"

text \<open>
  The body of \<open>paragraphs.forEach((paragraph, index) => ...)\<close>, on the pair of the index
  and the paragraph.
\<close>

definition numberedParagraph :: "nat \<times> jsstring \<Rightarrow> chapter_t list" where
  "numberedParagraph ip =
     (let paragraphLines = filter nonBlank (splitLines (snd ip)) in
      if length paragraphLines > 0
      then [\<lparr>title = paragraphTitle (fst ip + 1), startLine = 0, content = paragraphLines\<rparr>]
      else [])"

definition extractChaptersEarlier :: "jsstring \<Rightarrow> chapter_t list" where
  "extractChaptersEarlier text =
     (let lines = splitLines text;
          chapters = extractLoopEarlier 0 lines None []
      in if length chapters = 0 then
           (let paragraphs = filter nonBlank (splitRegex paragraphBreak [] text) in
            if length paragraphs > 1
            then concat (map numberedParagraph (enumerate 0 paragraphs))
            else [\<lparr>title = wholeTextTitle, startLine = 0, content = filter nonBlank lines\<rparr>])
         else chapters)"

section \<open>Flattening a chapter\<close>

text \<open>
  What \<open>chapter.content\<close> can be for \<open>getChapterContentAsString\<close>: an array of lines,
  a string, a missing chapter or a missing or otherwise falsy content (\<open>Absent\<close>), or some
  other value, given by its conversion to a string.
\<close>

datatype chapterContent = Lines "jsstring list" | Text jsstring | Absent | Other jsstring

fun getChapterContentAsString :: "chapterContent \<Rightarrow> jsstring" where
  "getChapterContentAsString Absent = []"
| "getChapterContentAsString (Lines ls) = join [0x0A] ls"
| "getChapterContentAsString (Text t) = t"
| "getChapterContentAsString (Other t) = t"

text \<open>The flattening of the status bar: \<open>chapter.content.join(' ')\<close>.\<close>

definition flatten :: "chapter_t \<Rightarrow> jsstring" where
  "flatten ch = join [0x20] (content ch)"

definition maxScrollOffset :: "chapter_t \<Rightarrow> int" where
  "maxScrollOffset ch = max 0 (int (length (flatten ch)) - 1)"

section \<open>Numbers of the preview panel\<close>

text \<open>
  The scroll percentage that the preview panel reports is a double. A finite double is a
  mantissa and a binary exponent, \<open>Dbl m e\<close> standing for \<open>m * 2 ^ e\<close>. The product of
  a double and an integer is the exact product rounded to 53 bits, ties to even (overflow
  and subnormal results do not arise for a percentage and a text length).
\<close>

datatype double = Dbl int int

fun bits :: "nat \<Rightarrow> nat" where
  "bits n = (if n = 0 then 0 else Suc (bits (n div 2)))"

declare bits.simps [simp del]

definition round53 :: "int \<Rightarrow> int \<Rightarrow> double" where
  "round53 n e =
     (let a = nat \<bar>n\<bar>; b = bits a in
      if b \<le> 53 then Dbl n e
      else
        (let sh = b - 53;
             q = a div 2 ^ sh;
             r = a mod 2 ^ sh;
             h = 2 ^ (sh - 1);
             q' = (if r > h \<or> (r = h \<and> odd q) then Suc q else q)
         in Dbl (sgn n * int q') (e + int sh)))"

fun mulD :: "double \<Rightarrow> int \<Rightarrow> double" where
  "mulD (Dbl m e) n = round53 (m * n) e"

fun floorD :: "double \<Rightarrow> int" where
  "floorD (Dbl m e) = (if e \<ge> 0 then m * 2 ^ nat e else m div 2 ^ nat (- e))"

fun positiveD :: "double \<Rightarrow> bool" where
  "positiveD (Dbl m e) = (m > 0)"

section \<open>The reader\<close>

datatype fileStatus = Active | MissingFile | ErrorFile

datatype fileType = Pasted | PDF | TXT | EPUB

text \<open>
  A document of the library (an element of \<open>_files\<close>), without its page count,
  which only feeds the side panel. \<open>chapterPositions\<close> is the object that maps a chapter
  index to the offset last saved for that chapter.
\<close>

record file_t =
  fileId :: jsstring
  name :: jsstring
  fileKind :: fileType
  path :: jsstring
  chapters :: "chapter_t list"
  fullText :: jsstring
  status :: fileStatus
  lastChapter :: "int option"
  lastScrollOffset :: int
  lastReadTime :: "int option"
  chapterPositions :: "int \<rightharpoonup> int"

text \<open>
  \<open>_currentFile\<close> and the elements of \<open>_files\<close> are references to shared objects: the
  state holds a heap of documents, and both are references into it.

  The state also holds what the reader sees of its host and of the preview panel manager:
  \<^item> \<open>pendingSaves\<close>: the timeouts set by \<open>_saveCurrentState\<close> that have neither fired
    nor been cleared, \<open>nextTimer\<close> the next timer handle, \<open>writes\<close> the number of writes
    to the store so far, \<open>clock\<close> the value of \<open>Date.now()\<close>;
  \<^item> \<open>webviewPanel\<close>: whether the panel exists, \<open>panelVisible\<close> the field \<open>_isVisible\<close>,
    \<open>lastCharOffset\<close> and \<open>lastScrollPercentage\<close> the position cached from the last
    scroll message of the panel.
\<close>

record reader =
  heap :: "nat \<Rightarrow> file_t"
  files :: "nat list"
  currentFile :: "nat option"
  currentChapter :: "int option"
  scrollOffset :: int
  statusBarVisible :: bool
  statusText :: jsstring
  isRestoring :: bool
  saveDebounceTimer :: "nat option"
  pendingSaves :: "nat list"
  nextTimer :: nat
  writes :: nat
  clock :: int
  webviewPanel :: bool
  panelVisible :: bool
  lastCharOffset :: int
  lastScrollPercentage :: double

text \<open>\<open>file.chapters[i]\<close>, \<open>None\<close> for \<open>undefined\<close>.\<close>

definition chapterAt :: "file_t \<Rightarrow> int \<Rightarrow> chapter_t option" where
  "chapterAt f i =
     (if 0 \<le> i \<and> i < int (length (chapters f)) then Some (chapters f ! nat i) else None)"

text \<open>The chapter under the cursor, when there is a document and a chapter of it.\<close>

definition loadedChapter :: "reader \<Rightarrow> chapter_t option" where
  "loadedChapter s =
     (case currentFile s of
        None \<Rightarrow> None
      | Some r \<Rightarrow> (case currentChapter s of None \<Rightarrow> None | Some i \<Rightarrow> chapterAt (heap s r) i))"

text \<open>\<open>FloatingWindowManager.isVisible()\<close>.\<close>

definition isVisible :: "reader \<Rightarrow> bool" where
  "isVisible s = (panelVisible s \<and> webviewPanel s)"

subsection \<open>The status bar\<close>

definition displayLength :: int where
  "displayLength = 80"

text \<open>The two icons, a magnifying glass and an open book.\<close>

definition previewStatus :: "reader \<Rightarrow> jsstring" where
  "previewStatus s = (if isVisible s then [0xD83D, 0xDD0D] else [0xD83D, 0xDCD6])"

text \<open>
  \<open>_displayChapterText(chapter)\<close>; the argument is \<open>None\<close> when the caller passes
  \<open>undefined\<close>. The colour of the text is left out.
\<close>

definition displayChapterText :: "chapter_t option \<Rightarrow> reader \<Rightarrow> reader" where
  "displayChapterText chO s =
     (case chO of
        None \<Rightarrow> s
      | Some ch \<Rightarrow>
          if \<not> statusBarVisible s then s
          else
            (let fullContent = flatten ch;
                 totalLength = int (length fullContent);
                 maxOff = max 0 (totalLength - 1);
                 off = max 0 (min (scrollOffset s) maxOff);
                 actualEndPos = min (off + displayLength) totalLength;
                 displayContent = substring fullContent off actualEndPos;
                 scrollIndicator =
                   (if totalLength > displayLength
                    then str '' ['' @ showInt off @ str ''-'' @ showInt actualEndPos @ str ''/''
                         @ showInt totalLength @ str '']''
                    else [])
             in s\<lparr>scrollOffset := off,
                  statusText := str ''reader: '' @ title ch @ scrollIndicator @ str '' - ''
                                @ displayContent @ str '' '' @ previewStatus s\<rparr>))"

subsection \<open>Saving positions\<close>

text \<open>\<open>this._files.find(f => f.id === fileId)\<close>.\<close>

definition findFile :: "reader \<Rightarrow> jsstring \<Rightarrow> nat option" where
  "findFile s fid = find (\<lambda>r. fileId (heap s r) = fid) (files s)"

definition saveFileReadingPosition :: "jsstring \<Rightarrow> reader \<Rightarrow> reader" where
  "saveFileReadingPosition fid s =
     (if fid = [] then s
      else
        (case findFile s fid of
           None \<Rightarrow> s
         | Some r \<Rightarrow>
             s\<lparr>heap := (heap s)(r := (heap s r)\<lparr>lastChapter := currentChapter s,
                                                 lastScrollOffset := scrollOffset s,
                                                 lastReadTime := Some (clock s)\<rparr>)\<rparr>))"

definition saveChapterPosition :: "int option \<Rightarrow> int \<Rightarrow> reader \<Rightarrow> reader" where
  "saveChapterPosition chapterIndex off s =
     (case currentFile s of
        None \<Rightarrow> s
      | Some r \<Rightarrow>
          (case chapterIndex of
             None \<Rightarrow> s
           | Some i \<Rightarrow>
               s\<lparr>heap := (heap s)(r := (heap s r)\<lparr>chapterPositions :=
                                                    (chapterPositions (heap s r))(i \<mapsto> off)\<rparr>)\<rparr>))"

definition getChapterPosition :: "int \<Rightarrow> reader \<Rightarrow> int" where
  "getChapterPosition chapterIndex s =
     (case currentFile s of
        None \<Rightarrow> 0
      | Some r \<Rightarrow> (case chapterPositions (heap s r) chapterIndex of None \<Rightarrow> 0 | Some v \<Rightarrow> v))"

text \<open>
  \<open>_saveCurrentState\<close>: nothing during a restore; otherwise the position is copied into
  the current document, the pending timeout is cleared and a new one is set.
\<close>

definition saveCurrentState :: "reader \<Rightarrow> reader" where
  "saveCurrentState s =
     (if isRestoring s then s
      else
        (let s1 = (case currentFile s of
                     None \<Rightarrow> s
                   | Some r \<Rightarrow> saveFileReadingPosition (fileId (heap s r)) s);
             cleared = (case saveDebounceTimer s1 of
                          None \<Rightarrow> pendingSaves s1
                        | Some t \<Rightarrow> removeAll t (pendingSaves s1))
         in s1\<lparr>pendingSaves := cleared @ [nextTimer s1],
                saveDebounceTimer := Some (nextTimer s1),
                nextTimer := Suc (nextTimer s1)\<rparr>))"

text \<open>
  The timeout \<open>t\<close> fires after its 500 ms: the callback writes the library and the id of
  the current document to the store. A timeout that was cleared does not fire.
\<close>

definition saveTimerFires :: "nat \<Rightarrow> reader \<Rightarrow> reader" where
  "saveTimerFires t s =
     (if t \<in> set (pendingSaves s)
      then s\<lparr>pendingSaves := removeAll t (pendingSaves s), writes := Suc (writes s)\<rparr>
      else s)"

subsection \<open>Navigation\<close>

definition scrollStep :: int where
  "scrollStep = 10"

definition jumpSize :: int where
  "jumpSize = 80"

text \<open>
  What the four commands share after they have moved the offset: display the chapter
  (which clamps the offset), save the position of the chapter, schedule a write.
\<close>

definition afterMove :: "reader \<Rightarrow> reader" where
  "afterMove s =
     (let s1 = displayChapterText (loadedChapter s) s;
          s2 = saveChapterPosition (currentChapter s1) (scrollOffset s1) s1
      in saveCurrentState s2)"

definition scrollLeft :: "reader \<Rightarrow> reader" where
  "scrollLeft s =
     (if currentChapter s \<noteq> None \<and> currentFile s \<noteq> None then
        (if scrollOffset s > 0
         then afterMove (s\<lparr>scrollOffset := max 0 (scrollOffset s - scrollStep)\<rparr>)
         else s)
      else s)"

definition previousPage :: "reader \<Rightarrow> reader" where
  "previousPage s =
     (if currentChapter s \<noteq> None \<and> currentFile s \<noteq> None then
        (if scrollOffset s > 0
         then afterMove (s\<lparr>scrollOffset := max 0 (scrollOffset s - jumpSize)\<rparr>)
         else s)
      else s)"

text \<open>
  Moving right reads the chapter first: \<open>chapter.content\<close> on \<open>undefined\<close> is a
  TypeError, which ends the command with the state as it was.
\<close>

definition scrollRight :: "reader \<Rightarrow> reader" where
  "scrollRight s =
     (if currentChapter s \<noteq> None \<and> currentFile s \<noteq> None then
        (case loadedChapter s of
           None \<Rightarrow> s
         | Some ch \<Rightarrow>
             if scrollOffset s < maxScrollOffset ch
             then afterMove (s\<lparr>scrollOffset := min (maxScrollOffset ch) (scrollOffset s + scrollStep)\<rparr>)
             else s)
      else s)"

definition nextPage :: "reader \<Rightarrow> reader" where
  "nextPage s =
     (if currentChapter s \<noteq> None \<and> currentFile s \<noteq> None then
        (case loadedChapter s of
           None \<Rightarrow> s
         | Some ch \<Rightarrow>
             if scrollOffset s < maxScrollOffset ch
             then afterMove (s\<lparr>scrollOffset := min (maxScrollOffset ch) (scrollOffset s + jumpSize)\<rparr>)
             else s)
      else s)"

subsection \<open>The preview panel\<close>

text \<open>
  \<open>_handleScrollPositionChanged\<close>: a scroll message of the panel only updates the cache
  (\<open>charOffset || 0\<close>: a missing offset is read as \<open>0\<close>).
\<close>

definition handleScrollPositionChanged :: "double \<Rightarrow> int option \<Rightarrow> reader \<Rightarrow> reader" where
  "handleScrollPositionChanged scrollPercentage charOffset s =
     s\<lparr>lastScrollPercentage := scrollPercentage,
       lastCharOffset := (case charOffset of None \<Rightarrow> 0 | Some c \<Rightarrow> c)\<rparr>"

text \<open>
  \<open>_syncLastScrollPositionToStatusBar\<close>: the cached position is committed to the
  cursor. The function also sets a timeout that displays the same chapter again after
  50 ms; that later call is \<open>redisplay\<close>.
\<close>

definition syncLastScrollPositionToStatusBar :: "reader \<Rightarrow> reader" where
  "syncLastScrollPositionToStatusBar s =
     (case currentFile s of
        None \<Rightarrow> s
      | Some r \<Rightarrow>
          (case currentChapter s of
             None \<Rightarrow> s
           | Some i \<Rightarrow>
               (case chapterAt (heap s r) i of
                  None \<Rightarrow> s
                | Some ch \<Rightarrow>
                    (let fullContent = getChapterContentAsString (Lines (content ch));
                         len = int (length fullContent);
                         newTextOffset =
                           (if lastCharOffset s = 0 \<and> positiveD (lastScrollPercentage s)
                            then floorD (mulD (lastScrollPercentage s) len)
                            else lastCharOffset s);
                         clamped = max 0 (min newTextOffset (len - 1));
                         s1 = displayChapterText (Some ch) (s\<lparr>scrollOffset := clamped\<rparr>);
                         s2 = saveChapterPosition (currentChapter s1) clamped s1
                     in saveCurrentState s2))))"

definition redisplay :: "chapter_t \<Rightarrow> reader \<Rightarrow> reader" where
  "redisplay ch s = displayChapterText (Some ch) s"

text \<open>
  \<open>_onChapterPreviewDisposed\<close>, the handler of the panel's dispose event, and
  \<open>hide\<close>, which disposes of the panel and so runs that handler.
\<close>

definition onChapterPreviewDisposed :: "reader \<Rightarrow> reader" where
  "onChapterPreviewDisposed s =
     (syncLastScrollPositionToStatusBar s)
       \<lparr>webviewPanel := False, panelVisible := False,
        lastCharOffset := 0, lastScrollPercentage := Dbl 0 0\<rparr>"

definition hide :: "reader \<Rightarrow> reader" where
  "hide s =
     (if webviewPanel s
      then (onChapterPreviewDisposed (syncLastScrollPositionToStatusBar s))
             \<lparr>webviewPanel := False, panelVisible := False\<rparr>
      else s)"

subsection \<open>Selecting a chapter\<close>

text \<open>
  \<open>_selectChapter(chapterId)\<close>; the argument is the result of \<open>parseInt\<close>, \<open>None\<close>
  for \<open>NaN\<close>, which fails both comparisons of the bounds check.
\<close>

definition selectChapter :: "int option \<Rightarrow> reader \<Rightarrow> reader" where
  "selectChapter chapterId s =
     (case currentFile s of
        None \<Rightarrow> s
      | Some r \<Rightarrow>
          (case chapterId of
             None \<Rightarrow> s
           | Some chapterIndex \<Rightarrow>
               if chapterIndex \<ge> 0 \<and> chapterIndex < int (length (chapters (heap s r))) then
                 (let s1 = (if currentChapter s \<noteq> None \<and> currentChapter s \<noteq> Some chapterIndex
                            then saveChapterPosition (currentChapter s) (scrollOffset s) s
                            else s);
                      s2 = s1\<lparr>currentChapter := Some chapterIndex\<rparr>;
                      s3 = s2\<lparr>scrollOffset := getChapterPosition chapterIndex s2\<rparr>;
                      s4 = displayChapterText (chapterAt (heap s3 r) chapterIndex) s3;
                      s5 = saveCurrentState s4
                  in if isVisible s5 then hide s5 else s5)
               else s))"

subsection \<open>Selecting a chapter in the earlier evolution\<close>

text \<open>
  \<open>_displayChapterText\<close> and \<open>_selectChapter\<close> of \<open>src/extension.js\<close>. The status text
  has another prefix and no icon; the selection keeps no offsets per chapter and sets the
  offset to \<open>0\<close>. The page counter \<open>_currentPage\<close> and the refresh of the side view are
  left out.
\<close>

definition displayChapterTextEarlier :: "chapter_t option \<Rightarrow> reader \<Rightarrow> reader" where
  "displayChapterTextEarlier chO s =
     (case chO of
        None \<Rightarrow> s
      | Some ch \<Rightarrow>
          if \<not> statusBarVisible s then s
          else
            (let fullContent = flatten ch;
                 totalLength = int (length fullContent);
                 maxOff = max 0 (totalLength - 1);
                 off = max 0 (min (scrollOffset s) maxOff);
                 actualEndPos = min (off + displayLength) totalLength;
                 displayContent = substring fullContent off actualEndPos;
                 scrollIndicator =
                   (if totalLength > displayLength
                    then str '' ['' @ showInt off @ str ''-'' @ showInt actualEndPos @ str ''/''
                         @ showInt totalLength @ str '']''
                    else [])
             in s\<lparr>scrollOffset := off,
                  statusText := str ''thief-reader: '' @ title ch @ scrollIndicator @ str '' - ''
                                @ displayContent\<rparr>))"

definition selectChapterEarlier :: "int option \<Rightarrow> reader \<Rightarrow> reader" where
  "selectChapterEarlier chapterId s =
     (case currentFile s of
        None \<Rightarrow> s
      | Some r \<Rightarrow>
          (case chapterId of
             None \<Rightarrow> s
           | Some chapterIndex \<Rightarrow>
               if chapterIndex \<ge> 0 \<and> chapterIndex < int (length (chapters (heap s r))) then
                 (let s1 = s\<lparr>currentChapter := Some chapterIndex, scrollOffset := 0\<rparr>;
                      s2 = displayChapterTextEarlier (chapterAt (heap s1 r) chapterIndex) s1
                  in saveCurrentState s2)
               else s))"

subsection \<open>Removing documents\<close>

definition readyText :: jsstring where
  "readyText = str ''reader: '' @ [0x51C6, 0x5907, 0x5C31, 0x7EEA]"

definition removeFile :: "jsstring \<Rightarrow> reader \<Rightarrow> reader" where
  "removeFile fid s =
     (case findFile s fid of
        None \<Rightarrow> s
      | Some r \<Rightarrow>
          (let s1 = s\<lparr>files := remove1 r (files s)\<rparr>;
               s2 = (case currentFile s1 of
                       None \<Rightarrow> s1
                     | Some c \<Rightarrow>
                         if fileId (heap s1 c) = fid
                         then s1\<lparr>currentFile := None, currentChapter := None, scrollOffset := 0,
                                 statusText := readyText\<rparr>
                         else s1)
           in saveCurrentState s2))"

definition unusable :: "file_t \<Rightarrow> bool" where
  "unusable f = (status f = MissingFile \<or> status f = ErrorFile)"

definition cleanupMissingFiles :: "reader \<Rightarrow> reader" where
  "cleanupMissingFiles s =
     (let s1 = s\<lparr>files := filter (\<lambda>r. \<not> unusable (heap s r)) (files s)\<rparr>;
          s2 = (case currentFile s1 of
                  None \<Rightarrow> s1
                | Some c \<Rightarrow>
                    if unusable (heap s1 c)
                    then s1\<lparr>currentFile := None, currentChapter := None, scrollOffset := 0,
                            statusText := readyText\<rparr>
                    else s1)
      in saveCurrentState s2)"

subsection \<open>Commands and events\<close>

datatype event =
    ScrollLeft
  | ScrollRight
  | PreviousPage
  | NextPage
  | SelectChapter "int option"
  | RemoveFile jsstring
  | CleanupMissingFiles
  | ScrollMessage double "int option"
  | HidePreview
  | PreviewDisposed
  | Redisplay chapter_t
  | SaveTimer nat

fun step :: "reader \<Rightarrow> event \<Rightarrow> reader" where
  "step s ScrollLeft = scrollLeft s"
| "step s ScrollRight = scrollRight s"
| "step s PreviousPage = previousPage s"
| "step s NextPage = nextPage s"
| "step s (SelectChapter i) = selectChapter i s"
| "step s (RemoveFile fid) = removeFile fid s"
| "step s CleanupMissingFiles = cleanupMissingFiles s"
| "step s (ScrollMessage p c) = handleScrollPositionChanged p c s"
| "step s HidePreview = hide s"
| "step s PreviewDisposed = onChapterPreviewDisposed s"
| "step s (Redisplay ch) = redisplay ch s"
| "step s (SaveTimer t) = saveTimerFires t s"

definition run_events :: "reader \<Rightarrow> event list \<Rightarrow> reader" where
  "run_events s evs = foldl step s evs"

section \<open>Restoring the library\<close>

text \<open>
  A record of the persisted document list, as \<open>StorageManager.saveFiles\<close> writes it
  (a missing \<open>lastChapter\<close>, \<open>lastScrollOffset\<close> or \<open>lastReadTime\<close> is \<open>None\<close>, a
  missing \<open>chapterPositions\<close> the empty map).
\<close>

record savedFile =
  savedId :: jsstring
  savedName :: jsstring
  savedType :: fileType
  savedPath :: jsstring
  savedFullText :: jsstring
  savedLastChapter :: "int option"
  savedLastScrollOffset :: "int option"
  savedLastReadTime :: "int option"
  savedChapterPositions :: "int \<rightharpoonup> int"

text \<open>
  What the host finds at a path: nothing, a file that cannot be read or decoded (or has an
  unsupported extension), the decoded text of a PDF or of a plain text file, or the text
  and the chapters of an e-book as \<open>_parseEpub\<close> returns them.
\<close>

datatype diskEntry =
    NoFile
  | Unreadable
  | PdfFile jsstring
  | TxtFile jsstring
  | EpubFile jsstring "chapter_t list"

record host =
  disk :: "jsstring \<Rightarrow> diskEntry"
  basename :: "jsstring \<Rightarrow> jsstring"

text \<open>
  \<open>_loadFileQuietly\<close>: \<open>None\<close> when it throws. The fields of the reading position are
  not set by the source; the caller assigns them at once.
\<close>

definition loadFileQuietly :: "host \<Rightarrow> int \<Rightarrow> jsstring \<Rightarrow> jsstring \<Rightarrow> file_t option" where
  "loadFileQuietly h now filePath fid =
     (let mk = (\<lambda>kind chs txt.
                  Some \<lparr>fileId = (if fid = [] then showInt now else fid),
                        name = basename h filePath, fileKind = kind, path = filePath,
                        chapters = chs, fullText = txt, status = Active, lastChapter = None,
                        lastScrollOffset = 0, lastReadTime = None,
                        chapterPositions = Map.empty\<rparr>)
      in case disk h filePath of
           PdfFile txt \<Rightarrow> mk PDF (extractChapters txt) txt
         | TxtFile txt \<Rightarrow> mk TXT (extractChapters txt) txt
         | EpubFile txt chs \<Rightarrow> mk EPUB chs txt
         | _ \<Rightarrow> None)"

text \<open>The four position fields, copied from the stored record.\<close>

definition savedPosition :: "savedFile \<Rightarrow> file_t \<Rightarrow> file_t" where
  "savedPosition sf f =
     f\<lparr>lastChapter := savedLastChapter sf,
       lastScrollOffset := (case savedLastScrollOffset sf of None \<Rightarrow> 0 | Some v \<Rightarrow> v),
       lastReadTime := savedLastReadTime sf,
       chapterPositions := savedChapterPositions sf\<rparr>"

text \<open>The entry that stands for a document that is missing or failed to load.\<close>

definition placeholderFile :: "savedFile \<Rightarrow> fileStatus \<Rightarrow> file_t" where
  "placeholderFile sf st =
     savedPosition sf
       \<lparr>fileId = savedId sf, name = savedName sf, fileKind = savedType sf, path = savedPath sf,
        chapters = [], fullText = [], status = st, lastChapter = None, lastScrollOffset = 0,
        lastReadTime = None, chapterPositions = Map.empty\<rparr>"

text \<open>
  The body of the loop of \<open>_restoreData\<close>: the document restored from one stored record.
  Only the branch of the files that were loaded again checks the chapter index.
\<close>

definition restoreFile :: "host \<Rightarrow> int \<Rightarrow> savedFile \<Rightarrow> file_t" where
  "restoreFile h now sf =
     (if savedType sf = Pasted then
        savedPosition sf
          \<lparr>fileId = savedId sf, name = savedName sf, fileKind = Pasted, path = [],
           chapters = extractChaptersWithFallback (savedFullText sf),
           fullText = savedFullText sf, status = Active, lastChapter = None,
           lastScrollOffset = 0, lastReadTime = None, chapterPositions = Map.empty\<rparr>
      else if savedPath sf = [] \<or> disk h (savedPath sf) = NoFile then
        placeholderFile sf MissingFile
      else
        (case loadFileQuietly h now (savedPath sf) (savedId sf) of
           None \<Rightarrow> placeholderFile sf ErrorFile
         | Some fileInfo \<Rightarrow>
             (let f = savedPosition sf fileInfo in
              case lastChapter f of
                None \<Rightarrow> f
              | Some lc \<Rightarrow>
                  if lc \<ge> int (length (chapters f))
                  then f\<lparr>lastChapter := Some 0, lastScrollOffset := 0\<rparr>
                  else f)))"

text \<open>
  \<open>_restoreFileReadingPosition(file)\<close>, called when a document becomes the current one:
  the cursor is taken from the document, or reset when the chapter index is too large.
\<close>

definition restoreFileReadingPosition :: "nat \<Rightarrow> reader \<Rightarrow> reader" where
  "restoreFileReadingPosition r s =
     (let f = heap s r;
          first = (if length (chapters f) > 0 then Some 0 else None)
      in case lastChapter f of
           Some lc \<Rightarrow>
             if lc \<ge> int (length (chapters f))
             then s\<lparr>currentChapter := first, scrollOffset := 0\<rparr>
             else s\<lparr>currentChapter := Some lc, scrollOffset := lastScrollOffset f\<rparr>
         | None \<Rightarrow> s\<lparr>currentChapter := first, scrollOffset := 0\<rparr>)"

section \<open>Invariants\<close>

text \<open>
  The largest offset of the cursor: \<open>max(0, length - 1)\<close> for the flattened text of the
  chapter under the cursor, \<open>0\<close> when there is none.
\<close>

definition currentMaxOffset :: "reader \<Rightarrow> int" where
  "currentMaxOffset s = (case loadedChapter s of None \<Rightarrow> 0 | Some ch \<Rightarrow> maxScrollOffset ch)"

text \<open>
  The invariant of the cursor. \<open>_statusBarVisible\<close> is set in the constructor and never
  assigned again, so it is part of the invariant.
\<close>

definition cursorInv :: "reader \<Rightarrow> bool" where
  "cursorInv s =
     (statusBarVisible s \<and> 0 \<le> scrollOffset s \<and> scrollOffset s \<le> currentMaxOffset s)"

text \<open>The clamping law: \<open>clamp(x, 0, maxOffset)\<close> for a chapter.\<close>

definition clampOffset :: "chapter_t \<Rightarrow> int \<Rightarrow> int" where
  "clampOffset ch x = max 0 (min x (maxScrollOffset ch))"

text \<open>
  The offset that closing the preview panel commits: the cached character offset when it
  is not zero, else the floor of percentage times length, clamped.
\<close>

definition committedOffset :: "reader \<Rightarrow> chapter_t \<Rightarrow> int" where
  "committedOffset s ch =
     (let len = int (length (getChapterContentAsString (Lines (content ch))))
      in max 0 (min (if lastCharOffset s \<noteq> 0 then lastCharOffset s
                     else floorD (mulD (lastScrollPercentage s) len)) (len - 1)))"

text \<open>
  The invariant of the save timer: a pending timeout is the one whose handle the reader
  holds, and handles are below the next one.
\<close>

definition timerInv :: "reader \<Rightarrow> bool" where
  "timerInv s =
     ((\<forall>t\<in>set (pendingSaves s). saveDebounceTimer s = Some t) \<and>
      distinct (pendingSaves s) \<and>
      (\<forall>t. saveDebounceTimer s = Some t \<longrightarrow> t < nextTimer s))"

text \<open>Exactly one write is pending, the one of the newest timer handle.\<close>

definition scheduled :: "reader \<Rightarrow> bool" where
  "scheduled s =
     (\<exists>t. pendingSaves s = [t] \<and> saveDebounceTimer s = Some t \<and> nextTimer s = Suc t)"

text \<open>Two states with the same timers and the same number of writes.\<close>

definition sameTimers :: "reader \<Rightarrow> reader \<Rightarrow> bool" where
  "sameTimers s s' =
     (pendingSaves s' = pendingSaves s \<and> saveDebounceTimer s' = saveDebounceTimer s \<and>
      nextTimer s' = nextTimer s \<and> writes s' = writes s \<and> isRestoring s' = isRestoring s)"

text \<open>
  The effect on the timers of a command that saves, from \<open>s\<close> to \<open>s'\<close>: nothing during
  a restore; otherwise a new write is the only pending one. Nothing is written.
\<close>

definition saves :: "reader \<Rightarrow> reader \<Rightarrow> bool" where
  "saves s s' =
     (writes s' = writes s \<and> isRestoring s' = isRestoring s \<and>
      (if isRestoring s then sameTimers s s' else scheduled s' \<and> nextTimer s < nextTimer s'))"

text \<open>The commands that change the cursor or the list of documents.\<close>

fun isMutation :: "event \<Rightarrow> bool" where
  "isMutation ScrollLeft = True"
| "isMutation ScrollRight = True"
| "isMutation PreviousPage = True"
| "isMutation NextPage = True"
| "isMutation (SelectChapter i) = True"
| "isMutation (RemoveFile fid) = True"
| "isMutation CleanupMissingFiles = True"
| "isMutation e = False"

section \<open>Example states\<close>

text \<open>
  A document of two chapters, of 500 and of 12 characters, with a stale saved offset
  for the second; and a reader at offset 450 of the first.
\<close>

definition scenarioFile :: file_t where
  "scenarioFile =
     \<lparr>fileId = str ''1'', name = str ''book.txt'', fileKind = TXT, path = str ''/book.txt'',
      chapters = [\<lparr>title = str ''One'', startLine = 0, content = [replicate 500 97]\<rparr>,
                  \<lparr>title = str ''Two'', startLine = 2, content = [str ''a short line'']\<rparr>],
      fullText = [], status = Active, lastChapter = Some 0, lastScrollOffset = 450,
      lastReadTime = None, chapterPositions = [1 \<mapsto> 100]\<rparr>"

definition scenarioReader :: reader where
  "scenarioReader =
     \<lparr>heap = (\<lambda>r. scenarioFile), files = [0], currentFile = Some 0, currentChapter = Some 0,
      scrollOffset = 450, statusBarVisible = True, statusText = [], isRestoring = False,
      saveDebounceTimer = None, pendingSaves = [], nextTimer = 0, writes = 0, clock = 0,
      webviewPanel = False, panelVisible = False, lastCharOffset = 0,
      lastScrollPercentage = Dbl 0 0\<rparr>"

text \<open>
  The reader of the first example with the preview panel open, which has reported the
  character offset \<open>5\<close>.
\<close>

definition openPanelReader :: reader where
  "openPanelReader = scenarioReader\<lparr>webviewPanel := True, panelVisible := True, lastCharOffset := 5\<rparr>"

text \<open>The reader as its constructor leaves it: no document, no chapter, offset \<open>0\<close>.\<close>

definition initialReader :: reader where
  "initialReader =
     scenarioReader
       \<lparr>files := [], currentFile := None, currentChapter := None, scrollOffset := 0,
        statusText := readyText @ [0x20, 0xD83D, 0xDCD6]\<rparr>"

text \<open>
  A reader whose preview panel is open on a chapter of 1000 characters and has reported
  no character offset and the percentage \<open>0.62\<close>, which as a double is
  \<open>5584463537939415 * 2 ^ (-53)\<close>.
\<close>

definition previewReader :: reader where
  "previewReader =
     scenarioReader
       \<lparr>heap := (\<lambda>r. scenarioFile\<lparr>chapters :=
                  [\<lparr>title = str ''One'', startLine = 0, content = [replicate 1000 97]\<rparr>]\<rparr>),
        scrollOffset := 0, webviewPanel := True, panelVisible := True,
        lastScrollPercentage := Dbl 5584463537939415 (-53)\<rparr>"

text \<open>
  A stored pasted text of three chapters whose stored chapter index is 5, the same record
  for a text file, and a host that has that file.
\<close>

definition threeChapters :: jsstring where
  "threeChapters = str ''Chapter 1: A\<newline>Chapter 2: B\<newline>Chapter 3: C''"

definition stalePaste :: savedFile where
  "stalePaste =
     \<lparr>savedId = str ''7'', savedName = str ''note'', savedType = Pasted, savedPath = [],
      savedFullText = threeChapters, savedLastChapter = Some 5, savedLastScrollOffset = Some 40,
      savedLastReadTime = None, savedChapterPositions = Map.empty\<rparr>"

definition staleText :: savedFile where
  "staleText = stalePaste\<lparr>savedType := TXT, savedPath := str ''/note.txt''\<rparr>"

definition noteHost :: host where
  "noteHost =
     \<lparr>disk = (\<lambda>p. if p = str ''/note.txt'' then TxtFile threeChapters else NoFile),
      basename = (\<lambda>p. p)\<rparr>"

section \<open>Properties of the segmenters\<close>

lemmas segmenter_defs =
  extractChaptersWithFallback_def extractChapters_def splitLines_def str_def trim_def
  isSpace_def inRanges_def whitespaceRanges_def chapterTitleOf_def chapterPatterns_def
  matchStart_def seq_def lit_def wordI_def swapCase_def space_def digit_def dot_def oneOf_def
  repRests_def cnNumerals_def matchTitle_def cleanTitle_def titlePrefix_def upperCaseLine_def
  keywordLine_def titleKeywords_def pushOpen_def

lemma trim_empty_iff: "trim s = [] \<longleftrightarrow> (\<forall>c\<in>set s. isSpace c)"
proof -
  have "trim s = [] \<longleftrightarrow> (\<forall>c\<in>set (dropWhile isSpace s). isSpace c)"
    by (simp add: trim_def dropWhile_eq_Nil_conv)
  also have "\<dots> \<longleftrightarrow> (\<forall>c\<in>set s. isSpace c)"
  proof
    assume "\<forall>c\<in>set (dropWhile isSpace s). isSpace c"
    then have "dropWhile isSpace s = []"
      by (metis dropWhile_eq_Nil_conv dropWhile_idem)
    then show "\<forall>c\<in>set s. isSpace c"
      by (simp add: dropWhile_eq_Nil_conv)
  next
    assume "\<forall>c\<in>set s. isSpace c"
    then show "\<forall>c\<in>set (dropWhile isSpace s). isSpace c"
      by (meson set_dropWhileD)
  qed
  finally show ?thesis .
qed

text \<open>The pieces of a split are made of characters of the input.\<close>

lemma splitAcc_chars: "l \<in> set (splitAcc sep acc s) \<Longrightarrow> set l \<subseteq> set acc \<union> set s"
  by (induction sep acc s rule: splitAcc.induct) (auto split: if_splits)

lemma splitRegex_chars: "l \<in> set (splitRegex r acc s) \<Longrightarrow> set l \<subseteq> set acc \<union> set s"
proof (induction r acc s rule: splitRegex.induct)
  case (1 r acc)
  then show ?case by simp
next
  case (2 r acc c cs)
  show ?case
  proof (cases "matchStart r (c # cs)")
    case None
    with 2 show ?thesis by auto
  next
    case (Some m)
    show ?thesis
    proof (cases "hd m = []")
      case True
      with 2 Some show ?thesis by auto
    next
      case False
      with "2.prems" Some
      have "l = rev acc \<or> l \<in> set (splitRegex r [] (drop (length (hd m)) (c # cs)))"
        by auto
      then show ?thesis
      proof
        assume "l = rev acc"
        then show ?thesis by auto
      next
        assume "l \<in> set (splitRegex r [] (drop (length (hd m)) (c # cs)))"
        from "2.IH"(3)[OF Some False this]
        have "set l \<subseteq> set (drop (length (hd m)) (c # cs))" by simp
        moreover have "set (drop (length (hd m)) (c # cs)) \<subseteq> set (c # cs)"
          by (rule set_drop_subset)
        ultimately show ?thesis by auto
      qed
    qed
  qed
qed

lemma blank_pieces:
  assumes "trim text = []" and "\<And>l. l \<in> set ps \<Longrightarrow> set l \<subseteq> set text"
  shows "\<forall>l\<in>set ps. trim l = []"
  using assms by (auto simp: trim_empty_iff)

text \<open>Blank lines leave the state of the loop as it is.\<close>

lemma extractLoop_blank:
  "\<forall>l\<in>set ls. trim l = [] \<Longrightarrow> extractLoop i ls cur chs = pushOpen cur chs"
  by (induction ls arbitrary: i) auto

text \<open>So do lines that open no chapter, as long as no chapter is open.\<close>

lemma extractLoop_skip:
  "\<forall>l\<in>set pre. trim l \<noteq> [] \<longrightarrow> chapterTitleOf (trim l) = None \<Longrightarrow>
   extractLoop i (pre @ post) None chs = extractLoop (i + length pre) post None chs"
  by (induction pre arbitrary: i) (auto simp: Let_def)

text \<open>The pipeline never returns an empty list.\<close>

lemma extractChaptersWithFallback_nonempty: "extractChaptersWithFallback text \<noteq> []"
  by (auto simp: extractChaptersWithFallback_def createFallbackChapters_def Let_def)

text \<open>
  Claim C2. For every input text that is not entirely blank, the heuristic segmenter,
  followed by the fallback segmenter when it returns nothing, yields at least one chapter,
  and every chapter has a non-empty title.

  The code does not keep the second half: a heading with nothing behind its colon, here
  the one-line text \<open>Chapter 1:\<close>, matches a boundary rule with the colon as the captured
  title, and cleaning the title removes the colon. The heuristic segmenter returns one
  chapter whose title is the empty string, and the fallback, which replaces an empty
  title by a placeholder, is not consulted.
\<close>

theorem heading_without_title_gives_empty_title:
  "trim (str ''Chapter 1:'') \<noteq> [] \<and>
   extractChaptersWithFallback (str ''Chapter 1:'') = [\<lparr>title = [], startLine = 0, content = []\<rparr>]"
  by (simp add: segmenter_defs upt_rec)

text \<open>
  Every chapter of the result was either collected before, or is the open chapter with
  more content, or was opened by one of the remaining lines and holds only such lines.
\<close>

lemma extractLoop_origin:
  "ch \<in> set (extractLoop i ls cur chs) \<Longrightarrow>
   ch \<in> set chs \<or>
   (\<exists>c. cur = Some c \<and> startLine ch = startLine c \<and>
        set (content ch) \<subseteq> set (content c) \<union> trim ` set ls) \<or>
   (i \<le> startLine ch \<and> set (content ch) \<subseteq> trim ` set ls)"
proof (induction ls arbitrary: i cur chs)
  case Nil
  then show ?case by (auto simp: pushOpen_def split: option.splits)
next
  case (Cons l ls)
  show ?case
  proof (cases "trim l = []")
    case True
    with Cons.prems have "ch \<in> set (extractLoop (Suc i) ls cur chs)" by simp
    from Cons.IH[OF this] show ?thesis by auto
  next
    case False
    show ?thesis
    proof (cases "chapterTitleOf (trim l)")
      case (Some t)
      with False Cons.prems
      have "ch \<in> set (extractLoop (Suc i) ls (Some \<lparr>title = t, startLine = i, content = []\<rparr>)
                        (pushOpen cur chs))"
        by (simp add: Let_def)
      from Cons.IH[OF this] show ?thesis
        by (auto simp: pushOpen_def split: option.splits)
    next
      case None
      show ?thesis
      proof (cases cur)
        case N: None
        with None False Cons.prems have "ch \<in> set (extractLoop (Suc i) ls None chs)"
          by (simp add: Let_def)
        from Cons.IH[OF this] N show ?thesis by auto
      next
        case (Some c)
        show ?thesis
        proof (cases "length (trim l) > 5")
          case True
          with Some None False Cons.prems
          have "ch \<in> set (extractLoop (Suc i) ls (Some (c\<lparr>content := content c @ [trim l]\<rparr>)) chs)"
            by (simp add: Let_def)
          from Cons.IH[OF this] Some show ?thesis by auto
        next
          case F: False
          with Some None False Cons.prems
          have "ch \<in> set (extractLoop (Suc i) ls (Some c) chs)"
            by (simp add: Let_def)
          from Cons.IH[OF this] Some show ?thesis by auto
        qed
      qed
    qed
  qed
qed

text \<open>
  The earlier evolution never returns the empty list, and it keeps the lines in front of
  the first boundary that are longer than five characters in a chapter of its own.
\<close>

lemma splitAcc_covers:
  "c \<noteq> sep \<Longrightarrow> c \<in> set acc \<union> set s \<Longrightarrow> \<exists>l\<in>set (splitAcc sep acc s). c \<in> set l"
  by (induction sep acc s rule: splitAcc.induct) auto

lemma nonBlank_has_line:
  assumes "nonBlank p"
  shows "filter nonBlank (splitLines p) \<noteq> []"
proof -
  from assms obtain c where c: "c \<in> set p" "\<not> isSpace c"
    by (auto simp: nonBlank_def trim_empty_iff)
  have "isSpace 0x0A"
    by (simp add: isSpace_def inRanges_def whitespaceRanges_def)
  with c have "c \<noteq> 0x0A" by auto
  from splitAcc_covers[OF this, of "[]" p] c obtain l
    where l: "l \<in> set (splitLines p)" "c \<in> set l"
    by (auto simp: splitLines_def)
  with c have "nonBlank l"
    by (auto simp: nonBlank_def trim_empty_iff)
  with l show ?thesis
    by (auto simp: filter_empty_conv)
qed

lemma extractChaptersEarlier_nonempty: "extractChaptersEarlier text \<noteq> []"
proof (cases "extractLoopEarlier 0 (splitLines text) None [] = []")
  case False
  then show ?thesis by (simp add: extractChaptersEarlier_def Let_def)
next
  case True
  show ?thesis
  proof (cases "filter nonBlank (splitRegex paragraphBreak [] text)")
    case Nil
    with True show ?thesis by (simp add: extractChaptersEarlier_def Let_def)
  next
    case (Cons p ps)
    then have "p \<in> set (filter nonBlank (splitRegex paragraphBreak [] text))"
      by simp
    then have "nonBlank p"
      by simp
    then have "numberedParagraph (0, p) \<noteq> []"
      using nonBlank_has_line[of p] by (simp add: numberedParagraph_def Let_def)
    with True Cons show ?thesis
      by (simp add: extractChaptersEarlier_def Let_def enumerate_simps)
  qed
qed


lemma extractLoopEarlier_nonempty:
  "cur \<noteq> None \<or> chs \<noteq> [] \<Longrightarrow> extractLoopEarlier i ls cur chs \<noteq> []"
  by (induction ls arbitrary: i cur chs) (auto simp: Let_def pushOpen_def split: option.splits)

lemma extractLoopEarlier_open:
  "\<forall>l\<in>set pre. trim l \<noteq> [] \<longrightarrow> chapterTitleOf (trim l) = None \<Longrightarrow>
   extractLoopEarlier i (pre @ post) (Some c) chs =
     extractLoopEarlier (i + length pre) post
       (Some (c\<lparr>content := content c @ filter (\<lambda>x. 5 < length x) (map trim pre)\<rparr>)) chs"
  by (induction pre arbitrary: i c) (auto simp: Let_def)

lemma extractLoopEarlier_default:
  "\<forall>l\<in>set pre. trim l \<noteq> [] \<longrightarrow> chapterTitleOf (trim l) = None \<Longrightarrow>
   extractLoopEarlier i (pre @ post) None [] =
     extractLoopEarlier (i + length pre) post
       (if filter (\<lambda>x. 5 < length x) (map trim pre) = [] then None
        else Some \<lparr>title = defaultTitle,
                   startLine = i + length (takeWhile (\<lambda>l. \<not> 5 < length (trim l)) pre),
                   content = filter (\<lambda>x. 5 < length x) (map trim pre)\<rparr>) []"
proof (induction pre arbitrary: i)
  case Nil
  then show ?case by simp
next
  case (Cons l ls)
  then have rest: "\<forall>l\<in>set ls. trim l \<noteq> [] \<longrightarrow> chapterTitleOf (trim l) = None"
    and this_line: "trim l \<noteq> [] \<longrightarrow> chapterTitleOf (trim l) = None"
    by simp_all
  show ?case
  proof (cases "5 < length (trim l)")
    case True
    then have "trim l \<noteq> []" by auto
    with True this_line show ?thesis
      by (simp add: Let_def extractLoopEarlier_open[OF rest])
  next
    case False
    with this_line Cons.IH[OF rest, of "Suc i"] show ?thesis
      by (auto simp: Let_def)
  qed
qed

text \<open>
  Claim C3, as stated: when no boundary rule matches any line of the input, the heuristic
  segmenter returns the empty list, and lines that match no rule and come before the first
  boundary are not retained.

  This holds for \<open>_extractChapters\<close> of \<open>src/unnamed/part_001\<close> and fails for
  \<open>_extractChapters\<close> of \<open>src/extension.js\<close>: on a text of two lines that match no rule
  the latter returns one chapter with the fixed title \<open>defaultTitle\<close>, which holds both
  lines.
\<close>

theorem earlier_segmenter_keeps_unmatched_lines:
  "chapterTitleOf (str ''intro words'') = None \<and>
   chapterTitleOf (str ''more of the same'') = None \<and>
   extractChaptersEarlier (str ''intro words\<newline>more of the same'') =
     [\<lparr>title = defaultTitle, startLine = 0,
       content = [str ''intro words'', str ''more of the same'']\<rparr>]"
  by (simp add: extractChaptersEarlier_def segmenter_defs upt_rec Let_def)

text \<open>
  Claim C3, amended. Let \<open>pre\<close> be any run of leading lines that match no rule and \<open>post\<close>
  the lines behind it.

  In the later evolution (\<open>src/unnamed/part_001\<close>) the lines of \<open>pre\<close> are not retained:
  the result is the one the loop computes from \<open>post\<close> alone, started at the index of its
  first line with no chapter open and no chapter collected; it is the empty list when
  \<open>post\<close> is empty, that is when no rule matches any line; and every chapter starts behind
  \<open>pre\<close> and its content consists of lines of \<open>post\<close>.

  In the earlier evolution (\<open>src/extension.js\<close>) the result is never the empty list, and
  when some line of \<open>pre\<close> is longer than five characters the lines of \<open>pre\<close> that are
  longer than five characters are retained: the result is the one the loop computes from
  \<open>post\<close> with a chapter open that has the title \<open>defaultTitle\<close>, starts at the first such
  line and holds all of them; it is that single chapter when \<open>post\<close> is empty.
\<close>

theorem unmatched_leading_lines_dropped:
  assumes "splitLines text = pre @ post"
    and "\<forall>l\<in>set pre. trim l \<noteq> [] \<longrightarrow> chapterTitleOf (trim l) = None"
  shows "extractChapters text = extractLoop (length pre) post None [] \<and>
         (post = [] \<longrightarrow> extractChapters text = []) \<and>
         (\<forall>ch\<in>set (extractChapters text).
            length pre \<le> startLine ch \<and> set (content ch) \<subseteq> trim ` set post) \<and>
         extractChaptersEarlier text \<noteq> [] \<and>
         (filter (\<lambda>x. 5 < length x) (map trim pre) \<noteq> [] \<longrightarrow>
            extractChaptersEarlier text =
              extractLoopEarlier (length pre) post
                (Some \<lparr>title = defaultTitle,
                       startLine = length (takeWhile (\<lambda>l. \<not> 5 < length (trim l)) pre),
                       content = filter (\<lambda>x. 5 < length x) (map trim pre)\<rparr>) [] \<and>
            (post = [] \<longrightarrow>
               extractChaptersEarlier text =
                 [\<lparr>title = defaultTitle,
                   startLine = length (takeWhile (\<lambda>l. \<not> 5 < length (trim l)) pre),
                   content = filter (\<lambda>x. 5 < length x) (map trim pre)\<rparr>]))"
proof -
  let ?long = "filter (\<lambda>x. 5 < length x) (map trim pre)"
  let ?d = "\<lparr>title = defaultTitle,
             startLine = length (takeWhile (\<lambda>l. \<not> 5 < length (trim l)) pre),
             content = ?long\<rparr>"
  have e: "extractChapters text = extractLoop (length pre) post None []"
    using extractLoop_skip[OF assms(2), of 0 post "[]"] assms(1)
    by (simp add: extractChapters_def)
  have o: "length pre \<le> startLine ch \<and> set (content ch) \<subseteq> trim ` set post"
    if "ch \<in> set (extractChapters text)" for ch
    using extractLoop_origin[of ch "length pre" post None "[]"] that e by simp
  have d: "extractChaptersEarlier text = extractLoopEarlier (length pre) post (Some ?d) []"
    if l: "?long \<noteq> []"
  proof -
    have "extractLoopEarlier 0 (splitLines text) None [] =
          extractLoopEarlier (length pre) post (Some ?d) []"
      using extractLoopEarlier_default[OF assms(2), of 0 post] assms(1) l by simp
    moreover have "extractLoopEarlier (length pre) post (Some ?d) [] \<noteq> []"
      by (rule extractLoopEarlier_nonempty) simp
    ultimately show ?thesis
      by (simp add: extractChaptersEarlier_def Let_def)
  qed
  have p: "extractChaptersEarlier text = [?d]" if "?long \<noteq> []" and "post = []"
    using d[OF that(1)] that(2) by (simp add: pushOpen_def)
  from e have z: "post = [] \<longrightarrow> extractChapters text = []"
    by (simp add: pushOpen_def)
  from e z o d p extractChaptersEarlier_nonempty show ?thesis
    by blast
qed

theorem unmatched_leading_lines_dropped_witness:
  "extractChapters (str ''intro words\<newline>more of the same'') = [] \<and>
   extractChapters (str ''intro words\<newline>Chapter 1: One\<newline>a line of text'') =
     [\<lparr>title = str ''One'', startLine = 1, content = [str ''a line of text'']\<rparr>] \<and>
   extractChaptersEarlier (str ''intro words\<newline>more of the same'') =
     [\<lparr>title = defaultTitle, startLine = 0,
       content = [str ''intro words'', str ''more of the same'']\<rparr>] \<and>
   extractChaptersEarlier (str ''intro words\<newline>Chapter 1: One\<newline>a line of text'') =
     [\<lparr>title = defaultTitle, startLine = 0, content = [str ''intro words'']\<rparr>,
      \<lparr>title = str ''One'', startLine = 1, content = [str ''a line of text'']\<rparr>]"
proof -
  have n1: "chapterTitleOf (str ''intro words'') = None"
    by (simp add: segmenter_defs upt_rec)
  have n2: "chapterTitleOf (str ''more of the same'') = None"
    by (simp add: segmenter_defs upt_rec)
  have t1: "trim (str ''intro words'') = str ''intro words''"
    by (simp add: segmenter_defs)
  have t2: "trim (str ''more of the same'') = str ''more of the same''"
    by (simp add: segmenter_defs)
  have s1: "splitLines (str ''intro words\<newline>more of the same'') =
            [str ''intro words'', str ''more of the same''] @ []"
    by (simp add: splitLines_def str_def)
  have s2: "splitLines (str ''intro words\<newline>Chapter 1: One\<newline>a line of text'') =
            [str ''intro words''] @ [str ''Chapter 1: One'', str ''a line of text'']"
    by (simp add: splitLines_def str_def)
  have h1: "\<forall>l\<in>set [str ''intro words'', str ''more of the same''].
              trim l \<noteq> [] \<longrightarrow> chapterTitleOf (trim l) = None"
    by (simp add: t1 t2 n1 n2)
  have h2: "\<forall>l\<in>set [str ''intro words'']. trim l \<noteq> [] \<longrightarrow> chapterTitleOf (trim l) = None"
    by (simp add: t1 n1)
  have l1: "filter (\<lambda>x. 5 < length x) (map trim [str ''intro words'', str ''more of the same'']) =
            [str ''intro words'', str ''more of the same'']"
    by (simp add: t1 t2) (simp add: str_def)
  have l2: "filter (\<lambda>x. 5 < length x) (map trim [str ''intro words'']) = [str ''intro words'']"
    by (simp add: t1) (simp add: str_def)
  have k1: "length (takeWhile (\<lambda>l. \<not> 5 < length (trim l))
              [str ''intro words'', str ''more of the same'']) = 0"
    by (simp add: t1) (simp add: str_def)
  have k2: "length (takeWhile (\<lambda>l. \<not> 5 < length (trim l)) [str ''intro words'']) = 0"
    by (simp add: t1) (simp add: str_def)
  have r: "extractLoop (length [str ''intro words''])
             [str ''Chapter 1: One'', str ''a line of text''] None [] =
           [\<lparr>title = str ''One'', startLine = 1, content = [str ''a line of text'']\<rparr>]"
    by (simp add: segmenter_defs upt_rec)
  have q: "extractLoopEarlier (length [str ''intro words''])
             [str ''Chapter 1: One'', str ''a line of text'']
             (Some \<lparr>title = defaultTitle, startLine = 0, content = [str ''intro words'']\<rparr>) [] =
           [\<lparr>title = defaultTitle, startLine = 0, content = [str ''intro words'']\<rparr>,
            \<lparr>title = str ''One'', startLine = 1, content = [str ''a line of text'']\<rparr>]"
    by (simp add: segmenter_defs upt_rec)
  note u1 = unmatched_leading_lines_dropped[OF s1 h1, unfolded l1 k1]
  note u2 = unmatched_leading_lines_dropped[OF s2 h2, unfolded l2 k2]
  from u1 have a: "extractChapters (str ''intro words\<newline>more of the same'') = []"
    by blast
  from u1 have c: "extractChaptersEarlier (str ''intro words\<newline>more of the same'') =
     [\<lparr>title = defaultTitle, startLine = 0,
       content = [str ''intro words'', str ''more of the same'']\<rparr>]"
    by blast
  from u2
  have b: "extractChapters (str ''intro words\<newline>Chapter 1: One\<newline>a line of text'') =
           extractLoop (length [str ''intro words''])
             [str ''Chapter 1: One'', str ''a line of text''] None []"
    by blast
  from u2
  have d: "extractChaptersEarlier (str ''intro words\<newline>Chapter 1: One\<newline>a line of text'') =
           extractLoopEarlier (length [str ''intro words''])
             [str ''Chapter 1: One'', str ''a line of text'']
             (Some \<lparr>title = defaultTitle, startLine = 0, content = [str ''intro words'']\<rparr>) []"
    by blast
  show ?thesis
    using a b c d r q by (simp only:)
qed

text \<open>
  Claim C4. For every input that is entirely blank after trimming, the heuristic segmenter
  followed by the fallback segmenter returns exactly one chapter, whose title is the fixed
  placeholder \<open>emptyTitle\<close> and whose content is empty.
\<close>

theorem blank_input_sentinel:
  assumes "trim text = []"
  shows "extractChaptersWithFallback text = [\<lparr>title = emptyTitle, startLine = 0, content = []\<rparr>]"
proof -
  have "\<And>l. l \<in> set (splitLines text) \<Longrightarrow> set l \<subseteq> set text"
    unfolding splitLines_def by (drule splitAcc_chars) simp
  then have lines: "\<forall>l\<in>set (splitLines text). trim l = []"
    by (rule blank_pieces[OF assms])
  have "\<And>l. l \<in> set (splitRegex paragraphBreak [] text) \<Longrightarrow> set l \<subseteq> set text"
    by (drule splitRegex_chars) simp
  then have paras: "\<forall>l\<in>set (splitRegex paragraphBreak [] text). trim l = []"
    by (rule blank_pieces[OF assms])
  have e: "extractChapters text = []"
    by (simp add: extractChapters_def extractLoop_blank[OF lines] pushOpen_def)
  have f1: "filter nonBlank (splitRegex paragraphBreak [] text) = []"
    using paras by (simp add: nonBlank_def filter_empty_conv)
  have f2: "filter nonBlank (splitLines text) = []"
    using lines by (simp add: nonBlank_def filter_empty_conv)
  have "createFallbackChapters text = [\<lparr>title = emptyTitle, startLine = 0, content = []\<rparr>]"
    by (simp add: createFallbackChapters_def f1 f2 assms)
  then show ?thesis
    by (simp add: extractChaptersWithFallback_def e)
qed

theorem blank_input_sentinel_witness:
  "trim (str '' \<newline>  \<newline> '') = [] \<and>
   extractChaptersWithFallback (str '' \<newline>  \<newline> '') =
     [\<lparr>title = emptyTitle, startLine = 0, content = []\<rparr>]"
proof -
  have h: "trim (str '' \<newline>  \<newline> '') = []"
    by (simp add: segmenter_defs)
  show ?thesis
    using h blank_input_sentinel[OF h] by simp
qed

section \<open>The two flattenings\<close>

lemma length_join: "length (join [a] ls) = sum_list (map length ls) + (length ls - 1)"
  by (induction "[a]" ls rule: join.induct) auto

text \<open>
  Claim C10. The flattening of the status bar (the lines joined by a space) and the
  flattening of the preview panel (\<open>getChapterContentAsString\<close>, the lines joined by a
  newline) have the same length for every list of lines; \<open>getChapterContentAsString\<close>
  returns a content that is a string unchanged; so the largest offset is the same under
  both flattenings.
\<close>

theorem flattenings_same_length:
  "length (join [0x20] ls) = length (getChapterContentAsString (Lines ls)) \<and>
   getChapterContentAsString (Text t) = t \<and>
   maxScrollOffset ch = max 0 (int (length (getChapterContentAsString (Lines (content ch)))) - 1)"
  by (simp add: length_join maxScrollOffset_def flatten_def)

section \<open>The cursor stays in range\<close>

lemma maxScrollOffset_nonneg: "0 \<le> maxScrollOffset ch"
  by (simp add: maxScrollOffset_def)

lemma display_cursor [simp]:
  "currentFile (displayChapterText c s) = currentFile s"
  "currentChapter (displayChapterText c s) = currentChapter s"
  "heap (displayChapterText c s) = heap s"
  "files (displayChapterText c s) = files s"
  "statusBarVisible (displayChapterText c s) = statusBarVisible s"
  "loadedChapter (displayChapterText c s) = loadedChapter s"
  by (auto simp: displayChapterText_def loadedChapter_def Let_def split: option.splits)

lemma display_timers [simp]:
  "isRestoring (displayChapterText c s) = isRestoring s"
  "saveDebounceTimer (displayChapterText c s) = saveDebounceTimer s"
  "pendingSaves (displayChapterText c s) = pendingSaves s"
  "nextTimer (displayChapterText c s) = nextTimer s"
  "writes (displayChapterText c s) = writes s"
  "clock (displayChapterText c s) = clock s"
  by (auto simp: displayChapterText_def Let_def split: option.splits)

lemma display_panel [simp]:
  "webviewPanel (displayChapterText c s) = webviewPanel s"
  "panelVisible (displayChapterText c s) = panelVisible s"
  "lastCharOffset (displayChapterText c s) = lastCharOffset s"
  "lastScrollPercentage (displayChapterText c s) = lastScrollPercentage s"
  "isVisible (displayChapterText c s) = isVisible s"
  by (auto simp: displayChapterText_def isVisible_def Let_def split: option.splits)

lemma display_offset:
  "scrollOffset (displayChapterText c s) =
     (case c of
        None \<Rightarrow> scrollOffset s
      | Some ch \<Rightarrow> if statusBarVisible s then max 0 (min (scrollOffset s) (maxScrollOffset ch))
                   else scrollOffset s)"
  by (auto simp: displayChapterText_def maxScrollOffset_def Let_def split: option.splits)

lemma loadedChapter_heap:
  "chapters f = chapters (heap s r) \<Longrightarrow> loadedChapter (s\<lparr>heap := (heap s)(r := f)\<rparr>) = loadedChapter s"
  by (auto simp: loadedChapter_def chapterAt_def split: option.splits)

lemma saveChapterPosition_cursor [simp]:
  "currentFile (saveChapterPosition i off s) = currentFile s"
  "currentChapter (saveChapterPosition i off s) = currentChapter s"
  "scrollOffset (saveChapterPosition i off s) = scrollOffset s"
  "files (saveChapterPosition i off s) = files s"
  "statusBarVisible (saveChapterPosition i off s) = statusBarVisible s"
  "loadedChapter (saveChapterPosition i off s) = loadedChapter s"
  "statusText (saveChapterPosition i off s) = statusText s"
  by (auto simp: saveChapterPosition_def loadedChapter_heap split: option.splits)

lemma saveChapterPosition_timers [simp]:
  "isRestoring (saveChapterPosition i off s) = isRestoring s"
  "saveDebounceTimer (saveChapterPosition i off s) = saveDebounceTimer s"
  "pendingSaves (saveChapterPosition i off s) = pendingSaves s"
  "nextTimer (saveChapterPosition i off s) = nextTimer s"
  "writes (saveChapterPosition i off s) = writes s"
  "clock (saveChapterPosition i off s) = clock s"
  by (auto simp: saveChapterPosition_def split: option.splits)

lemma saveChapterPosition_panel [simp]:
  "webviewPanel (saveChapterPosition i off s) = webviewPanel s"
  "panelVisible (saveChapterPosition i off s) = panelVisible s"
  "lastCharOffset (saveChapterPosition i off s) = lastCharOffset s"
  "lastScrollPercentage (saveChapterPosition i off s) = lastScrollPercentage s"
  "isVisible (saveChapterPosition i off s) = isVisible s"
  by (auto simp: saveChapterPosition_def isVisible_def split: option.splits)

lemma saveChapterPosition_chapters [simp]:
  "chapters (heap (saveChapterPosition i off s) r) = chapters (heap s r)"
  "fileId (heap (saveChapterPosition i off s) r) = fileId (heap s r)"
  "status (heap (saveChapterPosition i off s) r) = status (heap s r)"
  by (auto simp: saveChapterPosition_def split: option.splits)

lemma saveFileReadingPosition_cursor [simp]:
  "currentFile (saveFileReadingPosition fid s) = currentFile s"
  "currentChapter (saveFileReadingPosition fid s) = currentChapter s"
  "scrollOffset (saveFileReadingPosition fid s) = scrollOffset s"
  "files (saveFileReadingPosition fid s) = files s"
  "statusBarVisible (saveFileReadingPosition fid s) = statusBarVisible s"
  "loadedChapter (saveFileReadingPosition fid s) = loadedChapter s"
  "statusText (saveFileReadingPosition fid s) = statusText s"
  by (auto simp: saveFileReadingPosition_def loadedChapter_heap split: option.splits)

lemma saveFileReadingPosition_timers [simp]:
  "isRestoring (saveFileReadingPosition fid s) = isRestoring s"
  "saveDebounceTimer (saveFileReadingPosition fid s) = saveDebounceTimer s"
  "pendingSaves (saveFileReadingPosition fid s) = pendingSaves s"
  "nextTimer (saveFileReadingPosition fid s) = nextTimer s"
  "writes (saveFileReadingPosition fid s) = writes s"
  "clock (saveFileReadingPosition fid s) = clock s"
  by (auto simp: saveFileReadingPosition_def split: option.splits)

lemma saveFileReadingPosition_panel [simp]:
  "webviewPanel (saveFileReadingPosition fid s) = webviewPanel s"
  "panelVisible (saveFileReadingPosition fid s) = panelVisible s"
  "lastCharOffset (saveFileReadingPosition fid s) = lastCharOffset s"
  "lastScrollPercentage (saveFileReadingPosition fid s) = lastScrollPercentage s"
  "isVisible (saveFileReadingPosition fid s) = isVisible s"
  by (auto simp: saveFileReadingPosition_def isVisible_def split: option.splits)

lemma saveFileReadingPosition_chapters [simp]:
  "chapters (heap (saveFileReadingPosition fid s) r) = chapters (heap s r)"
  "fileId (heap (saveFileReadingPosition fid s) r) = fileId (heap s r)"
  "status (heap (saveFileReadingPosition fid s) r) = status (heap s r)"
  "chapterPositions (heap (saveFileReadingPosition fid s) r) = chapterPositions (heap s r)"
  by (auto simp: saveFileReadingPosition_def split: option.splits)

lemma saveCurrentState_cursor [simp]:
  "currentFile (saveCurrentState s) = currentFile s"
  "currentChapter (saveCurrentState s) = currentChapter s"
  "scrollOffset (saveCurrentState s) = scrollOffset s"
  "files (saveCurrentState s) = files s"
  "statusBarVisible (saveCurrentState s) = statusBarVisible s"
  "statusText (saveCurrentState s) = statusText s"
  "isRestoring (saveCurrentState s) = isRestoring s"
  "writes (saveCurrentState s) = writes s"
  "clock (saveCurrentState s) = clock s"
  by (auto simp: saveCurrentState_def Let_def split: option.splits)

lemma saveCurrentState_panel [simp]:
  "webviewPanel (saveCurrentState s) = webviewPanel s"
  "panelVisible (saveCurrentState s) = panelVisible s"
  "lastCharOffset (saveCurrentState s) = lastCharOffset s"
  "lastScrollPercentage (saveCurrentState s) = lastScrollPercentage s"
  "isVisible (saveCurrentState s) = isVisible s"
  by (auto simp: saveCurrentState_def isVisible_def Let_def split: option.splits)

lemma saveCurrentState_chapters [simp]:
  "chapters (heap (saveCurrentState s) r) = chapters (heap s r)"
  "fileId (heap (saveCurrentState s) r) = fileId (heap s r)"
  "status (heap (saveCurrentState s) r) = status (heap s r)"
  "chapterPositions (heap (saveCurrentState s) r) = chapterPositions (heap s r)"
  by (auto simp: saveCurrentState_def Let_def split: option.splits)

lemma loadedChapter_cong:
  "currentFile s' = currentFile s \<Longrightarrow> currentChapter s' = currentChapter s \<Longrightarrow>
   (\<And>r. chapters (heap s' r) = chapters (heap s r)) \<Longrightarrow> loadedChapter s' = loadedChapter s"
  by (auto simp: loadedChapter_def chapterAt_def split: option.splits)

lemma saveCurrentState_loaded [simp]: "loadedChapter (saveCurrentState s) = loadedChapter s"
  by (rule loadedChapter_cong) simp_all


lemma loadedChapter_update [simp]:
  "loadedChapter (scrollOffset_update f1 s) = loadedChapter s"
  "loadedChapter (statusText_update f2 s) = loadedChapter s"
  "loadedChapter (webviewPanel_update f3 s) = loadedChapter s"
  "loadedChapter (panelVisible_update f4 s) = loadedChapter s"
  "loadedChapter (lastCharOffset_update f5 s) = loadedChapter s"
  "loadedChapter (lastScrollPercentage_update f6 s) = loadedChapter s"
  "loadedChapter (pendingSaves_update f7 s) = loadedChapter s"
  "loadedChapter (saveDebounceTimer_update f8 s) = loadedChapter s"
  "loadedChapter (nextTimer_update f9 s) = loadedChapter s"
  "loadedChapter (writes_update f10 s) = loadedChapter s"
  "loadedChapter (files_update f11 s) = loadedChapter s"
  by (simp_all add: loadedChapter_def split: option.splits)

lemma isVisible_update [simp]:
  "isVisible (scrollOffset_update f1 s) = isVisible s"
  "isVisible (statusText_update f2 s) = isVisible s"
  "isVisible (currentChapter_update g1 s) = isVisible s"
  "isVisible (currentFile_update g2 s) = isVisible s"
  "isVisible (heap_update g3 s) = isVisible s"
  "isVisible (pendingSaves_update f7 s) = isVisible s"
  "isVisible (saveDebounceTimer_update f8 s) = isVisible s"
  "isVisible (nextTimer_update f9 s) = isVisible s"
  "isVisible (writes_update f10 s) = isVisible s"
  "isVisible (files_update f11 s) = isVisible s"
  by (simp_all add: isVisible_def)

lemma afterMove_cursor [simp]:
  "currentFile (afterMove s) = currentFile s"
  "currentChapter (afterMove s) = currentChapter s"
  "statusBarVisible (afterMove s) = statusBarVisible s"
  "loadedChapter (afterMove s) = loadedChapter s"
  "files (afterMove s) = files s"
  "scrollOffset (afterMove s) = scrollOffset (displayChapterText (loadedChapter s) s)"
  by (simp_all add: afterMove_def Let_def)

lemma cursorInv_afterMove:
  assumes "statusBarVisible s" and "loadedChapter s \<noteq> None"
  shows "cursorInv (afterMove s)"
  using assms by (auto simp: cursorInv_def currentMaxOffset_def display_offset maxScrollOffset_nonneg)

lemma cursorInv_scrollLeft: "cursorInv s \<Longrightarrow> cursorInv (scrollLeft s)"
  by (cases "loadedChapter s") (auto simp: scrollLeft_def cursorInv_def currentMaxOffset_def display_offset)

lemma cursorInv_previousPage: "cursorInv s \<Longrightarrow> cursorInv (previousPage s)"
  by (cases "loadedChapter s") (auto simp: previousPage_def cursorInv_def currentMaxOffset_def display_offset)

lemma cursorInv_scrollRight: "cursorInv s \<Longrightarrow> cursorInv (scrollRight s)"
  by (cases "loadedChapter s") (auto simp: scrollRight_def cursorInv_def currentMaxOffset_def display_offset)

lemma cursorInv_nextPage: "cursorInv s \<Longrightarrow> cursorInv (nextPage s)"
  by (cases "loadedChapter s") (auto simp: nextPage_def cursorInv_def currentMaxOffset_def display_offset)

lemma chapterAt_cong: "chapters f = chapters g \<Longrightarrow> chapterAt f i = chapterAt g i"
  by (simp add: chapterAt_def)

lemma sync_none: "loadedChapter s = None \<Longrightarrow> syncLastScrollPositionToStatusBar s = s"
  by (auto simp: syncLastScrollPositionToStatusBar_def loadedChapter_def split: option.splits)

lemma sync_cursor [simp]:
  "currentFile (syncLastScrollPositionToStatusBar s) = currentFile s"
  "currentChapter (syncLastScrollPositionToStatusBar s) = currentChapter s"
  "statusBarVisible (syncLastScrollPositionToStatusBar s) = statusBarVisible s"
  "files (syncLastScrollPositionToStatusBar s) = files s"
  "isRestoring (syncLastScrollPositionToStatusBar s) = isRestoring s"
  "writes (syncLastScrollPositionToStatusBar s) = writes s"
  "webviewPanel (syncLastScrollPositionToStatusBar s) = webviewPanel s"
  "panelVisible (syncLastScrollPositionToStatusBar s) = panelVisible s"
  "lastCharOffset (syncLastScrollPositionToStatusBar s) = lastCharOffset s"
  "lastScrollPercentage (syncLastScrollPositionToStatusBar s) = lastScrollPercentage s"
  "chapters (heap (syncLastScrollPositionToStatusBar s) r) = chapters (heap s r)"
  "fileId (heap (syncLastScrollPositionToStatusBar s) r) = fileId (heap s r)"
  "status (heap (syncLastScrollPositionToStatusBar s) r) = status (heap s r)"
  by (auto simp: syncLastScrollPositionToStatusBar_def Let_def split: option.splits)

lemma sync_loaded [simp]:
  "loadedChapter (syncLastScrollPositionToStatusBar s) = loadedChapter s"
  by (rule loadedChapter_cong) simp_all

lemma floorD_nonpos: "m \<le> 0 \<Longrightarrow> floorD (Dbl m e) \<le> 0"
  by (auto simp: mult_nonpos_nonneg intro!: div_nonpos_pos_le0)

lemma round53_nonpos: "n \<le> 0 \<Longrightarrow> \<exists>m e'. round53 n e = Dbl m e' \<and> m \<le> 0"
  by (auto simp: round53_def Let_def mult_le_0_iff sgn_if)

lemma mulD_nonpos:
  assumes "\<not> positiveD p" and "0 \<le> n"
  shows "floorD (mulD p n) \<le> 0"
proof (cases p)
  case (Dbl m e)
  with assms have "m * n \<le> 0"
    by (simp add: mult_le_0_iff)
  from round53_nonpos[OF this, of e] obtain m' e' where "round53 (m * n) e = Dbl m' e'" "m' \<le> 0"
    by blast
  then show ?thesis
    using Dbl floorD_nonpos[of m' e'] by simp
qed

lemma sync_offset:
  assumes "statusBarVisible s" and "loadedChapter s = Some ch"
  shows "scrollOffset (syncLastScrollPositionToStatusBar s) = committedOffset s ch"
proof -
  from assms(2) obtain r i where ri: "currentFile s = Some r" "currentChapter s = Some i"
    "chapterAt (heap s r) i = Some ch"
    by (auto simp: loadedChapter_def split: option.splits)
  let ?len = "int (length (getChapterContentAsString (Lines (content ch))))"
  have len: "?len = int (length (flatten ch))"
    by (simp add: flatten_def length_join)
  have z: "\<not> positiveD (lastScrollPercentage s) \<Longrightarrow>
           max 0 (min (floorD (mulD (lastScrollPercentage s) ?len)) (?len - 1)) = max 0 (min 0 (?len - 1))"
    using mulD_nonpos[of "lastScrollPercentage s" ?len] by auto
  show ?thesis
    using ri assms(1) z
    by (auto simp: syncLastScrollPositionToStatusBar_def Let_def display_offset committedOffset_def
        maxScrollOffset_def len simp del: getChapterContentAsString.simps)
qed

lemma committedOffset_range: "0 \<le> committedOffset s ch \<and> committedOffset s ch \<le> maxScrollOffset ch"
  by (auto simp: committedOffset_def maxScrollOffset_def flatten_def length_join Let_def)

lemma cursorInv_sync: "cursorInv s \<Longrightarrow> cursorInv (syncLastScrollPositionToStatusBar s)"
proof (cases "loadedChapter s")
  case None
  assume "cursorInv s"
  then show ?thesis by (simp add: sync_none[OF None])
next
  case (Some ch)
  assume "cursorInv s"
  then have v: "statusBarVisible s" by (simp add: cursorInv_def)
  show ?thesis
    using committedOffset_range[of s ch] v Some
    by (simp add: cursorInv_def currentMaxOffset_def sync_offset[OF v Some])
qed

lemma cursorInv_panel_update [simp]:
  "cursorInv (webviewPanel_update f3 s) = cursorInv s"
  "cursorInv (panelVisible_update f4 s) = cursorInv s"
  "cursorInv (lastCharOffset_update f5 s) = cursorInv s"
  "cursorInv (lastScrollPercentage_update f6 s) = cursorInv s"
  "cursorInv (pendingSaves_update f7 s) = cursorInv s"
  "cursorInv (writes_update f10 s) = cursorInv s"
  "cursorInv (files_update f11 s) = cursorInv s"
  by (simp_all add: cursorInv_def currentMaxOffset_def)

lemma cursorInv_disposed: "cursorInv s \<Longrightarrow> cursorInv (onChapterPreviewDisposed s)"
  by (simp add: onChapterPreviewDisposed_def cursorInv_sync)

lemma cursorInv_hide: "cursorInv s \<Longrightarrow> cursorInv (hide s)"
  by (simp add: hide_def cursorInv_disposed cursorInv_sync)

lemma cursorInv_saveCurrentState [simp]: "cursorInv (saveCurrentState s) = cursorInv s"
  by (simp add: cursorInv_def currentMaxOffset_def)

lemma cursorInv_display:
  "statusBarVisible s \<Longrightarrow> loadedChapter s = Some ch \<Longrightarrow> cursorInv (displayChapterText (Some ch) s)"
  by (simp add: cursorInv_def currentMaxOffset_def display_offset maxScrollOffset_nonneg)

lemma cursorInv_selectChapter:
  assumes "cursorInv s"
  shows "cursorInv (selectChapter i s)"
proof (cases "currentFile s")
  case None
  with assms show ?thesis by (simp add: selectChapter_def)
next
  case (Some r)
  show ?thesis
  proof (cases i)
    case None
    with assms Some show ?thesis by (simp add: selectChapter_def)
  next
    case (Some k)
    note k = Some
    show ?thesis
    proof (cases "k \<ge> 0 \<and> k < int (length (chapters (heap s r)))")
      case False
      with assms k \<open>currentFile s = Some r\<close> show ?thesis by (auto simp: selectChapter_def)
    next
      case True
      define s1 where "s1 = (if currentChapter s \<noteq> None \<and> currentChapter s \<noteq> Some k
                            then saveChapterPosition (currentChapter s) (scrollOffset s) s else s)"
      define s3 where "s3 = s1\<lparr>currentChapter := Some k,
                               scrollOffset := getChapterPosition k (s1\<lparr>currentChapter := Some k\<rparr>)\<rparr>"
      define s4 where "s4 = displayChapterText (chapterAt (heap s3 r) k) s3"
      have c1: "currentFile s1 = Some r" "statusBarVisible s1"
        "chapters (heap s1 r) = chapters (heap s r)"
        using assms \<open>currentFile s = Some r\<close> by (auto simp: s1_def cursorInv_def)
      obtain ch where ch: "chapterAt (heap s3 r) k = Some ch"
        using True c1 by (auto simp: chapterAt_def s3_def)
      have l3: "loadedChapter s3 = Some ch" "statusBarVisible s3"
        using ch c1 by (auto simp: loadedChapter_def s3_def)
      have "cursorInv s4"
        unfolding s4_def ch by (rule cursorInv_display[OF l3(2) l3(1)])
      then have "cursorInv (saveCurrentState s4)" by simp
      then have "cursorInv (if isVisible (saveCurrentState s4) then hide (saveCurrentState s4)
                            else saveCurrentState s4)"
        by (simp add: cursorInv_hide)
      moreover have "selectChapter i s =
          (if isVisible (saveCurrentState s4) then hide (saveCurrentState s4) else saveCurrentState s4)"
        using True k \<open>currentFile s = Some r\<close>
        by (simp add: selectChapter_def Let_def s4_def s3_def s1_def)
      ultimately show ?thesis by simp
    qed
  qed
qed

lemma cursorInv_cleared:
  "cursorInv s \<Longrightarrow>
   cursorInv (s\<lparr>files := fs, currentFile := None, currentChapter := None, scrollOffset := 0,
                statusText := t\<rparr>)"
  by (simp add: cursorInv_def currentMaxOffset_def loadedChapter_def)

lemma cursorInv_removeFile: "cursorInv s \<Longrightarrow> cursorInv (removeFile fid s)"
  by (auto simp: removeFile_def Let_def cursorInv_cleared split: option.splits)

lemma cursorInv_cleanup: "cursorInv s \<Longrightarrow> cursorInv (cleanupMissingFiles s)"
  by (auto simp: cleanupMissingFiles_def Let_def cursorInv_cleared split: option.splits)

lemma cursorInv_redisplay: "cursorInv s \<Longrightarrow> cursorInv (redisplay ch s)"
  by (auto simp: redisplay_def cursorInv_def currentMaxOffset_def display_offset maxScrollOffset_nonneg split: option.splits)

lemma cursorInv_step: "cursorInv s \<Longrightarrow> cursorInv (step s e)"
  by (cases e)
    (simp_all add: cursorInv_scrollLeft cursorInv_scrollRight cursorInv_previousPage
      cursorInv_nextPage cursorInv_selectChapter cursorInv_removeFile cursorInv_cleanup
      cursorInv_hide cursorInv_disposed cursorInv_redisplay handleScrollPositionChanged_def
      saveTimerFires_def)

lemma cursorInv_run: "cursorInv s \<Longrightarrow> cursorInv (run_events s evs)"
  unfolding run_events_def by (induction evs arbitrary: s) (simp_all add: cursorInv_step)

lemma step_offsets:
  assumes "cursorInv s" and "loadedChapter s = Some ch"
  shows "scrollOffset (scrollLeft s) = clampOffset ch (scrollOffset s - 10)"
    and "scrollOffset (scrollRight s) = clampOffset ch (scrollOffset s + 10)"
    and "scrollOffset (previousPage s) = clampOffset ch (scrollOffset s - 80)"
    and "scrollOffset (nextPage s) = clampOffset ch (scrollOffset s + 80)"
  using assms
  by (auto simp: scrollLeft_def scrollRight_def previousPage_def nextPage_def cursorInv_def
      currentMaxOffset_def display_offset clampOffset_def scrollStep_def jumpSize_def
      loadedChapter_def split: option.splits)

lemma step_noop:
  assumes "cursorInv s" and "loadedChapter s = None"
  shows "scrollLeft s = s" "scrollRight s = s" "previousPage s = s" "nextPage s = s"
  using assms
  by (auto simp: scrollLeft_def scrollRight_def previousPage_def nextPage_def cursorInv_def
      currentMaxOffset_def)

lemma selectChapter_noop:
  "currentFile s = None \<or> (\<exists>r. currentFile s = Some r \<and> chapters (heap s r) = []) \<Longrightarrow>
   selectChapter i s = s"
  by (auto simp: selectChapter_def split: option.splits)

lemma scenario_loaded:
  "loadedChapter scenarioReader = Some \<lparr>title = str ''One'', startLine = 0, content = [replicate 500 97]\<rparr>"
  by (simp add: loadedChapter_def scenarioReader_def scenarioFile_def chapterAt_def)

lemma scenario_inv: "cursorInv scenarioReader"
  by (simp add: cursorInv_def currentMaxOffset_def scenario_loaded maxScrollOffset_def flatten_def)
    (simp add: scenarioReader_def)

text \<open>
  Claim C1. Along any sequence of events, among them the four steps (\<open>scrollLeft\<close>,
  \<open>scrollRight\<close>, \<open>previousPage\<close>, \<open>nextPage\<close>) and \<open>selectChapter\<close>, the offset
  stays within \<open>[0, maxOffset]\<close>, where \<open>maxOffset = max(0, flattenedLength - 1)\<close> for
  the chapter under the cursor; each step computes \<open>clamp(offset + delta, 0, maxOffset)\<close>
  with \<open>delta\<close> one of \<open>-10\<close>, \<open>+10\<close>, \<open>-80\<close>, \<open>+80\<close>; a step made while no chapter is
  loaded, and a chapter switch made while no document is loaded, changes nothing, and the
  offset is \<open>0\<close> then.
\<close>

theorem cursor_offset_stays_in_range:
  assumes "cursorInv s"
  shows "cursorInv (run_events s evs) \<and>
         (\<forall>ch. loadedChapter s = Some ch \<longrightarrow>
            scrollOffset (scrollLeft s) = clampOffset ch (scrollOffset s - 10) \<and>
            scrollOffset (scrollRight s) = clampOffset ch (scrollOffset s + 10) \<and>
            scrollOffset (previousPage s) = clampOffset ch (scrollOffset s - 80) \<and>
            scrollOffset (nextPage s) = clampOffset ch (scrollOffset s + 80)) \<and>
         (loadedChapter s = None \<longrightarrow>
            scrollOffset s = 0 \<and> scrollLeft s = s \<and> scrollRight s = s \<and>
            previousPage s = s \<and> nextPage s = s) \<and>
         (currentFile s = None \<longrightarrow> (\<forall>i. selectChapter i s = s))"
proof (intro conjI allI impI)
  show "cursorInv (run_events s evs)" by (rule cursorInv_run[OF assms])
next
  fix ch assume l: "loadedChapter s = Some ch"
  show "scrollOffset (scrollLeft s) = clampOffset ch (scrollOffset s - 10)"
    by (rule step_offsets(1)[OF assms l])
  show "scrollOffset (scrollRight s) = clampOffset ch (scrollOffset s + 10)"
    by (rule step_offsets(2)[OF assms l])
  show "scrollOffset (previousPage s) = clampOffset ch (scrollOffset s - 80)"
    by (rule step_offsets(3)[OF assms l])
  show "scrollOffset (nextPage s) = clampOffset ch (scrollOffset s + 80)"
    by (rule step_offsets(4)[OF assms l])
next
  assume l: "loadedChapter s = None"
  show "scrollOffset s = 0" using assms l by (simp add: cursorInv_def currentMaxOffset_def)
  show "scrollLeft s = s" by (rule step_noop(1)[OF assms l])
  show "scrollRight s = s" by (rule step_noop(2)[OF assms l])
  show "previousPage s = s" by (rule step_noop(3)[OF assms l])
  show "nextPage s = s" by (rule step_noop(4)[OF assms l])
next
  fix i assume "currentFile s = None"
  then show "selectChapter i s = s" by (simp add: selectChapter_noop)
qed

theorem cursor_offset_stays_in_range_witness:
  "cursorInv scenarioReader \<and>
   scrollOffset (nextPage scenarioReader) = 499 \<and>
   cursorInv (run_events scenarioReader [NextPage, SelectChapter (Some 1), ScrollLeft, PreviousPage]) \<and>
   cursorInv initialReader \<and> loadedChapter initialReader = None \<and>
   scrollOffset initialReader = 0 \<and> scrollRight initialReader = initialReader \<and>
   previousPage initialReader = initialReader \<and>
   selectChapter (Some 0) initialReader = initialReader"
proof -
  have "scrollOffset scenarioReader = 450" by (simp add: scenarioReader_def)
  moreover have "clampOffset \<lparr>title = str ''One'', startLine = 0, content = [replicate 500 97]\<rparr> (450 + 80) = 499"
    by (simp add: clampOffset_def maxScrollOffset_def flatten_def)
  ultimately have a: "cursorInv scenarioReader \<and>
      scrollOffset (nextPage scenarioReader) = 499 \<and>
      cursorInv (run_events scenarioReader [NextPage, SelectChapter (Some 1), ScrollLeft, PreviousPage])"
    using cursor_offset_stays_in_range[OF scenario_inv,
        of "[NextPage, SelectChapter (Some 1), ScrollLeft, PreviousPage]"] scenario_inv scenario_loaded
    by simp
  have i: "loadedChapter initialReader = None" "currentFile initialReader = None"
    by (simp_all add: initialReader_def loadedChapter_def)
  have inv: "cursorInv initialReader"
    by (simp add: cursorInv_def currentMaxOffset_def i) (simp add: initialReader_def scenarioReader_def)
  from cursor_offset_stays_in_range[OF inv, of "[]"] i
  have "scrollOffset initialReader = 0 \<and> scrollRight initialReader = initialReader \<and>
        previousPage initialReader = initialReader \<and>
        selectChapter (Some 0) initialReader = initialReader"
    by simp
  with a inv i show ?thesis by simp
qed

section \<open>The window of the status bar\<close>

lemma substring_window:
  assumes "0 \<le> a" and "a \<le> b" and "b \<le> int (length s)"
  shows "substring s a b = take (nat (b - a)) (drop (nat a) s)"
  using assms by (simp add: substring_def Let_def min_def max_def)

text \<open>
  Claim C9. For any chapter, the status bar shows the substring of the flattened chapter
  text from the clamped offset to \<open>min(offset + 80, length)\<close>, and the position marker
  \<open>[offset-end/total]\<close> is part of the text exactly when the flattened length exceeds the
  width of 80.
\<close>

theorem status_bar_window:
  assumes "statusBarVisible s"
  shows "let full = join [0x20] (content ch);
             total = int (length full);
             off = max 0 (min (scrollOffset s) (max 0 (total - 1)));
             end = min (off + 80) total;
             s' = displayChapterText (Some ch) s
         in scrollOffset s' = off \<and>
            statusText s' =
              str ''reader: '' @ title ch
              @ (if total > 80
                 then str '' ['' @ showInt off @ str ''-'' @ showInt end @ str ''/'' @ showInt total
                      @ str '']''
                 else [])
              @ str '' - '' @ take (nat (end - off)) (drop (nat off) full) @ str '' ''
              @ previewStatus s"
proof -
  define full where "full = join [0x20] (content ch)"
  define total where "total = int (length full)"
  define off where "off = max 0 (min (scrollOffset s) (max 0 (total - 1)))"
  define e where "e = min (off + 80) total"
  have "0 \<le> off" "off \<le> e" "e \<le> total"
    by (auto simp: off_def e_def total_def)
  then have "substring full off e = take (nat (e - off)) (drop (nat off) full)"
    unfolding total_def by (rule substring_window)
  then show ?thesis
    using assms
    by (simp add: displayChapterText_def Let_def flatten_def displayLength_def
        full_def[symmetric] total_def[symmetric] off_def[symmetric] e_def[symmetric])
qed

theorem status_bar_window_witness:
  "statusBarVisible scenarioReader \<and>
   statusText (displayChapterText (Some \<lparr>title = str ''One'', startLine = 0, content = [replicate 500 97]\<rparr>) scenarioReader)
     = str ''reader: One [450-500/500] - '' @ replicate 50 97 @ [0x20, 0xD83D, 0xDCD6] \<and>
   statusText (displayChapterText (Some \<lparr>title = str ''Two'', startLine = 2, content = [str ''a short line'']\<rparr>) scenarioReader)
     = str ''reader: Two - e '' @ [0xD83D, 0xDCD6]"
proof -
  have v: "statusBarVisible scenarioReader" by (simp add: scenarioReader_def)
  have o: "scrollOffset scenarioReader = 450" by (simp add: scenarioReader_def)
  have p: "previewStatus scenarioReader = [0xD83D, 0xDCD6]"
    by (simp add: previewStatus_def isVisible_def scenarioReader_def)
  have n: "showInt 450 = str ''450''" "showInt 500 = str ''500''"
    by (simp_all add: showInt_def showNat.simps str_def)
  show ?thesis
    using status_bar_window[OF v, of "\<lparr>title = str ''One'', startLine = 0, content = [replicate 500 97]\<rparr>"]
      status_bar_window[OF v, of "\<lparr>title = str ''Two'', startLine = 2, content = [str ''a short line'']\<rparr>"]
    by (simp add: Let_def v o p n) (simp add: str_def)
qed

section \<open>Switching chapters\<close>

lemma selectChapter_out_of_range:
  assumes "currentFile s = Some r" and "chapterAt (heap s r) k = None"
  shows "selectChapter (Some k) s = s"
  using assms by (auto simp: selectChapter_def chapterAt_def split: if_splits)

lemma selectChapter_switch:
  assumes "currentFile s = Some r" and "statusBarVisible s" and "\<not> isVisible s"
    and "chapterAt (heap s r) k = Some ch" and "currentChapter s = Some c" and "c \<noteq> k"
  shows "currentChapter (selectChapter (Some k) s) = Some k"
    and "chapterPositions (heap (selectChapter (Some k) s) r) =
           (chapterPositions (heap s r))(c \<mapsto> scrollOffset s)"
    and "scrollOffset (selectChapter (Some k) s) =
           clampOffset ch (case ((chapterPositions (heap s r))(c \<mapsto> scrollOffset s)) k of
                             None \<Rightarrow> 0 | Some v \<Rightarrow> v)"
proof -
  from assms(4) have inr: "k \<ge> 0 \<and> k < int (length (chapters (heap s r)))"
    by (auto simp: chapterAt_def split: if_splits)
  define s1 where "s1 = saveChapterPosition (Some c) (scrollOffset s) s"
  define s3 where "s3 = s1\<lparr>currentChapter := Some k,
                           scrollOffset := getChapterPosition k (s1\<lparr>currentChapter := Some k\<rparr>)\<rparr>"
  define s4 where "s4 = displayChapterText (chapterAt (heap s3 r) k) s3"
  have sel: "selectChapter (Some k) s = saveCurrentState s4"
    using assms(1,3,5,6) inr
    by (simp add: selectChapter_def Let_def s4_def s3_def s1_def)
  have m1: "chapterPositions (heap s1 r) = (chapterPositions (heap s r))(c \<mapsto> scrollOffset s)"
    using assms(1) by (simp add: s1_def saveChapterPosition_def)
  have "chapterAt (heap s3 r) k = chapterAt (heap s r) k"
    by (rule chapterAt_cong) (simp add: s3_def s1_def)
  then have c3: "chapterAt (heap s3 r) k = Some ch"
    using assms(4) by simp
  have g: "scrollOffset s3 =
           (case ((chapterPositions (heap s r))(c \<mapsto> scrollOffset s)) k of None \<Rightarrow> 0 | Some v \<Rightarrow> v)"
    using assms(1) m1 by (simp add: s3_def getChapterPosition_def s1_def)
  have v3: "statusBarVisible s3" using assms(2) by (simp add: s3_def s1_def)
  have h3: "heap s3 = heap s1" by (simp add: s3_def)
  show "currentChapter (selectChapter (Some k) s) = Some k"
    by (simp add: sel s4_def s3_def)
  show "chapterPositions (heap (selectChapter (Some k) s) r) =
          (chapterPositions (heap s r))(c \<mapsto> scrollOffset s)"
    by (simp add: sel s4_def h3 m1)
  show "scrollOffset (selectChapter (Some k) s) =
          clampOffset ch (case ((chapterPositions (heap s r))(c \<mapsto> scrollOffset s)) k of
                            None \<Rightarrow> 0 | Some v \<Rightarrow> v)"
    using v3 by (simp add: sel s4_def c3 display_offset clampOffset_def g)
qed

lemma scenario_switch:
  "currentFile scenarioReader = Some 0" "statusBarVisible scenarioReader"
  "\<not> isVisible scenarioReader"
  "chapterAt (heap scenarioReader 0) 1 =
     Some \<lparr>title = str ''Two'', startLine = 2, content = [str ''a short line'']\<rparr>"
  "currentChapter scenarioReader = Some 0" "(0::int) \<noteq> 1"
  by (simp_all add: scenarioReader_def scenarioFile_def isVisible_def chapterAt_def)

lemma scenario_positions:
  "chapterPositions (heap scenarioReader 0) = [1 \<mapsto> 100]" "scrollOffset scenarioReader = 450"
  "clampOffset \<lparr>title = str ''Two'', startLine = 2, content = [str ''a short line'']\<rparr> 100 = 11"
  by (simp_all add: scenarioReader_def scenarioFile_def clampOffset_def maxScrollOffset_def
      flatten_def str_def)

text \<open>The earlier evolution: the selection resets the offset and touches no offset map.\<close>

lemma displayEarlier_fields [simp]:
  "currentFile (displayChapterTextEarlier c s) = currentFile s"
  "currentChapter (displayChapterTextEarlier c s) = currentChapter s"
  "heap (displayChapterTextEarlier c s) = heap s"
  by (auto simp: displayChapterTextEarlier_def Let_def split: option.splits)

lemma displayEarlier_zero:
  "scrollOffset s = 0 \<Longrightarrow> scrollOffset (displayChapterTextEarlier c s) = 0"
  by (auto simp: displayChapterTextEarlier_def Let_def split: option.splits)

lemma selectChapterEarlier_out_of_range:
  assumes "currentFile s = Some r" and "chapterAt (heap s r) k = None"
  shows "selectChapterEarlier (Some k) s = s"
  using assms by (auto simp: selectChapterEarlier_def chapterAt_def split: if_splits)

lemma selectChapterEarlier_switch:
  assumes "currentFile s = Some r" and "chapterAt (heap s r) k = Some ch"
  shows "currentChapter (selectChapterEarlier (Some k) s) = Some k"
    and "scrollOffset (selectChapterEarlier (Some k) s) = 0"
    and "chapterPositions (heap (selectChapterEarlier (Some k) s) r) = chapterPositions (heap s r)"
proof -
  from assms(2) have inr: "k \<ge> 0 \<and> k < int (length (chapters (heap s r)))"
    by (auto simp: chapterAt_def split: if_splits)
  define s1 where "s1 = s\<lparr>currentChapter := Some k, scrollOffset := 0\<rparr>"
  define s2 where "s2 = displayChapterTextEarlier (chapterAt (heap s1 r) k) s1"
  have sel: "selectChapterEarlier (Some k) s = saveCurrentState s2"
    using assms(1) inr by (simp add: selectChapterEarlier_def Let_def s2_def s1_def)
  show "currentChapter (selectChapterEarlier (Some k) s) = Some k"
    by (simp add: sel s2_def s1_def)
  show "scrollOffset (selectChapterEarlier (Some k) s) = 0"
    by (simp add: sel s2_def displayEarlier_zero s1_def)
  show "chapterPositions (heap (selectChapterEarlier (Some k) s) r) = chapterPositions (heap s r)"
    by (simp add: sel s2_def s1_def)
qed

text \<open>
  The later evolution: what closing the panel commits does not depend on the status bar,
  and so the two cases of the selection, panel closed and panel open.
\<close>

lemma sync_offset_any:
  assumes "loadedChapter s = Some ch"
  shows "scrollOffset (syncLastScrollPositionToStatusBar s) = committedOffset s ch"
proof -
  from assms obtain r i where ri: "currentFile s = Some r" "currentChapter s = Some i"
    "chapterAt (heap s r) i = Some ch"
    by (auto simp: loadedChapter_def split: option.splits)
  let ?len = "int (length (getChapterContentAsString (Lines (content ch))))"
  have len: "?len = int (length (flatten ch))"
    by (simp add: flatten_def length_join)
  have z: "\<not> positiveD (lastScrollPercentage s) \<Longrightarrow>
           max 0 (min (floorD (mulD (lastScrollPercentage s) ?len)) (?len - 1)) = max 0 (min 0 (?len - 1))"
    using mulD_nonpos[of "lastScrollPercentage s" ?len] by auto
  show ?thesis
    using ri z
    by (auto simp: syncLastScrollPositionToStatusBar_def Let_def display_offset committedOffset_def
        maxScrollOffset_def len simp del: getChapterContentAsString.simps)
qed

lemma hide_offset_any:
  assumes "loadedChapter s = Some ch" and "webviewPanel s"
  shows "scrollOffset (hide s) = committedOffset s ch"
    and "currentChapter (hide s) = currentChapter s"
proof -
  let ?s1 = "syncLastScrollPositionToStatusBar s"
  have "scrollOffset (syncLastScrollPositionToStatusBar ?s1) = committedOffset ?s1 ch"
    by (rule sync_offset_any) (simp add: assms)
  moreover have "committedOffset ?s1 ch = committedOffset s ch"
    by (simp add: committedOffset_def Let_def)
  ultimately show "scrollOffset (hide s) = committedOffset s ch"
    using assms(2) by (simp add: hide_def onChapterPreviewDisposed_def)
  show "currentChapter (hide s) = currentChapter s"
    by (simp add: hide_def onChapterPreviewDisposed_def)
qed

lemma selectChapter_closed:
  assumes "currentFile s = Some r" and "\<not> isVisible s"
    and "chapterAt (heap s r) k = Some ch" and "currentChapter s = Some c" and "c \<noteq> k"
  shows "currentChapter (selectChapter (Some k) s) = Some k"
    and "chapterPositions (heap (selectChapter (Some k) s) r) =
           (chapterPositions (heap s r))(c \<mapsto> scrollOffset s)"
    and "scrollOffset (selectChapter (Some k) s) =
           (let v = (case ((chapterPositions (heap s r))(c \<mapsto> scrollOffset s)) k of
                       None \<Rightarrow> 0 | Some v \<Rightarrow> v)
            in if statusBarVisible s then clampOffset ch v else v)"
proof -
  from assms(3) have inr: "k \<ge> 0 \<and> k < int (length (chapters (heap s r)))"
    by (auto simp: chapterAt_def split: if_splits)
  define s1 where "s1 = saveChapterPosition (Some c) (scrollOffset s) s"
  define s3 where "s3 = s1\<lparr>currentChapter := Some k,
                           scrollOffset := getChapterPosition k (s1\<lparr>currentChapter := Some k\<rparr>)\<rparr>"
  define s4 where "s4 = displayChapterText (chapterAt (heap s3 r) k) s3"
  have sel: "selectChapter (Some k) s = saveCurrentState s4"
    using assms(1,2,4,5) inr
    by (simp add: selectChapter_def Let_def s4_def s3_def s1_def)
  have m1: "chapterPositions (heap s1 r) = (chapterPositions (heap s r))(c \<mapsto> scrollOffset s)"
    using assms(1) by (simp add: s1_def saveChapterPosition_def)
  have "chapterAt (heap s3 r) k = chapterAt (heap s r) k"
    by (rule chapterAt_cong) (simp add: s3_def s1_def)
  then have c3: "chapterAt (heap s3 r) k = Some ch"
    using assms(3) by simp
  have g: "scrollOffset s3 =
           (case ((chapterPositions (heap s r))(c \<mapsto> scrollOffset s)) k of None \<Rightarrow> 0 | Some v \<Rightarrow> v)"
    using assms(1) m1 by (simp add: s3_def getChapterPosition_def s1_def)
  have v3: "statusBarVisible s3 = statusBarVisible s" by (simp add: s3_def s1_def)
  have h3: "heap s3 = heap s1" by (simp add: s3_def)
  show "currentChapter (selectChapter (Some k) s) = Some k"
    by (simp add: sel s4_def s3_def)
  show "chapterPositions (heap (selectChapter (Some k) s) r) =
          (chapterPositions (heap s r))(c \<mapsto> scrollOffset s)"
    by (simp add: sel s4_def h3 m1)
  show "scrollOffset (selectChapter (Some k) s) =
           (let v = (case ((chapterPositions (heap s r))(c \<mapsto> scrollOffset s)) k of
                       None \<Rightarrow> 0 | Some v \<Rightarrow> v)
            in if statusBarVisible s then clampOffset ch v else v)"
    by (simp add: sel s4_def c3 display_offset clampOffset_def g v3 Let_def)
qed

lemma selectChapter_open:
  assumes "currentFile s = Some r" and "isVisible s" and "chapterAt (heap s r) k = Some ch"
  shows "scrollOffset (selectChapter (Some k) s) = committedOffset s ch"
    and "currentChapter (selectChapter (Some k) s) = Some k"
proof -
  from assms(3) have inr: "k \<ge> 0 \<and> k < int (length (chapters (heap s r)))"
    by (auto simp: chapterAt_def split: if_splits)
  define s1 where "s1 = (if currentChapter s \<noteq> None \<and> currentChapter s \<noteq> Some k
                        then saveChapterPosition (currentChapter s) (scrollOffset s) s else s)"
  define s3 where "s3 = s1\<lparr>currentChapter := Some k,
                           scrollOffset := getChapterPosition k (s1\<lparr>currentChapter := Some k\<rparr>)\<rparr>"
  define s5 where "s5 = saveCurrentState (displayChapterText (chapterAt (heap s3 r) k) s3)"
  have vis: "isVisible s5" "webviewPanel s5"
    using assms(2) by (auto simp: s5_def s3_def s1_def isVisible_def)
  have sel: "selectChapter (Some k) s = hide s5"
    using assms(1) inr vis(1)
    by (simp add: selectChapter_def Let_def s5_def s3_def s1_def)
  have "chapterAt (heap s5 r) k = chapterAt (heap s r) k"
    by (rule chapterAt_cong) (simp add: s5_def s3_def s1_def)
  moreover have cc: "currentFile s5 = Some r" "currentChapter s5 = Some k"
    using assms(1) by (auto simp: s5_def s3_def s1_def)
  ultimately have l: "loadedChapter s5 = Some ch"
    using assms(3) by (simp add: loadedChapter_def)
  have "committedOffset s5 ch = committedOffset s ch"
    by (simp add: committedOffset_def Let_def s5_def s3_def s1_def)
  with hide_offset_any(1)[OF l vis(2)]
  show "scrollOffset (selectChapter (Some k) s) = committedOffset s ch"
    by (simp add: sel)
  from hide_offset_any(2)[OF l vis(2)] cc(2)
  show "currentChapter (selectChapter (Some k) s) = Some k"
    by (simp add: sel)
qed

lemma open_panel_facts:
  "currentFile openPanelReader = Some 0" "isVisible openPanelReader"
  "chapterAt (heap openPanelReader 0) 1 =
     Some \<lparr>title = str ''Two'', startLine = 2, content = [str ''a short line'']\<rparr>"
  "committedOffset openPanelReader
     \<lparr>title = str ''Two'', startLine = 2, content = [str ''a short line'']\<rparr> = 5"
  "currentChapter openPanelReader = Some 0"
  "chapterPositions (heap openPanelReader 0) 1 = Some 100"
  by (simp_all add: openPanelReader_def scenarioReader_def scenarioFile_def isVisible_def
      chapterAt_def committedOffset_def str_def)




section \<open>Closing the preview panel\<close>

lemma hide_offset:
  assumes "statusBarVisible s" and "loadedChapter s = Some ch" and "webviewPanel s"
  shows "scrollOffset (hide s) = committedOffset s ch"
proof -
  let ?s1 = "syncLastScrollPositionToStatusBar s"
  have "scrollOffset (syncLastScrollPositionToStatusBar ?s1) = committedOffset ?s1 ch"
    by (rule sync_offset) (simp_all add: assms)
  moreover have "committedOffset ?s1 ch = committedOffset s ch"
    by (simp add: committedOffset_def Let_def)
  ultimately show ?thesis
    using assms(3) by (simp add: hide_def onChapterPreviewDisposed_def)
qed

lemma disposed_offset:
  assumes "statusBarVisible s" and "loadedChapter s = Some ch"
  shows "scrollOffset (onChapterPreviewDisposed s) = committedOffset s ch"
  using sync_offset[OF assms] by (simp add: onChapterPreviewDisposed_def)

text \<open>
  Claim C6. When the preview panel closes (through \<open>hide\<close> or through its dispose
  event), the cursor receives the cached character offset when that is not zero and
  \<open>floor(percentage * length)\<close> otherwise, clamped by \<open>max(0, min(v, length - 1))\<close>,
  which lies in \<open>[0, length - 1]\<close> for a chapter that is not empty. With no cached
  offset and the percentage \<open>0.62\<close> on a chapter of 1000 characters the cursor
  receives \<open>620\<close>.
\<close>

theorem preview_close_commits_cached_offset:
  assumes "statusBarVisible s" and "loadedChapter s = Some ch" and "webviewPanel s"
  shows "let len = int (length (getChapterContentAsString (Lines (content ch))));
             v = (if lastCharOffset s \<noteq> 0 then lastCharOffset s
                  else floorD (mulD (lastScrollPercentage s) len));
             committed = max 0 (min v (len - 1))
         in scrollOffset (hide s) = committed \<and>
            scrollOffset (onChapterPreviewDisposed s) = committed \<and>
            (len > 0 \<longrightarrow> 0 \<le> committed \<and> committed \<le> len - 1)"
  using hide_offset[OF assms] disposed_offset[OF assms(1,2)]
  by (auto simp: committedOffset_def Let_def simp del: getChapterContentAsString.simps)

theorem preview_close_commits_cached_offset_witness:
  "statusBarVisible previewReader \<and> webviewPanel previewReader \<and>
   lastCharOffset previewReader = 0 \<and>
   loadedChapter previewReader =
     Some \<lparr>title = str ''One'', startLine = 0, content = [replicate 1000 97]\<rparr> \<and>
   scrollOffset (hide previewReader) = 620 \<and>
   scrollOffset (onChapterPreviewDisposed previewReader) = 620"
proof -
  have a: "statusBarVisible previewReader"
    "loadedChapter previewReader =
       Some \<lparr>title = str ''One'', startLine = 0, content = [replicate 1000 97]\<rparr>"
    "webviewPanel previewReader"
    by (simp_all add: previewReader_def scenarioReader_def scenarioFile_def loadedChapter_def
        chapterAt_def)
  have c: "lastCharOffset previewReader = 0"
    "lastScrollPercentage previewReader = Dbl 5584463537939415 (-53)"
    by (simp_all add: previewReader_def scenarioReader_def)
  have p: "floorD (round53 5584463537939415000 (- 53)) = 620"
    by (simp add: round53_def bits.simps Let_def)
  show ?thesis
    using preview_close_commits_cached_offset[OF a] a c
    by (simp add: Let_def p)
qed


section \<open>The debounced save\<close>

lemma scheduled_timerInv: "scheduled s \<Longrightarrow> timerInv s"
  by (auto simp: scheduled_def timerInv_def)

lemma timerInv_pending: "timerInv s \<Longrightarrow> length (pendingSaves s) \<le> 1"
proof -
  assume a: "timerInv s"
  show ?thesis
  proof (cases "pendingSaves s")
    case Nil
    then show ?thesis by simp
  next
    case (Cons t ts)
    with a have "\<forall>u\<in>set ts. u = t" "t \<notin> set ts"
      by (auto simp: timerInv_def)
    then have "ts = []" by (cases ts) auto
    with Cons show ?thesis by simp
  qed
qed

lemma removeAll_only: "\<forall>u\<in>set xs. u = t \<Longrightarrow> removeAll t xs = []"
  by (induction xs) auto

lemma saveCurrentState_restoring: "isRestoring s \<Longrightarrow> saveCurrentState s = s"
  by (simp add: saveCurrentState_def)

lemma saveCurrentState_scheduled:
  assumes "\<not> isRestoring s" and "timerInv s"
  shows "scheduled (saveCurrentState s) \<and> nextTimer (saveCurrentState s) = Suc (nextTimer s)"
proof (cases "saveDebounceTimer s")
  case None
  with assms(2) have "pendingSaves s = []"
    by (cases "pendingSaves s") (auto simp: timerInv_def)
  with None assms(1) show ?thesis
    by (auto simp: saveCurrentState_def scheduled_def Let_def split: option.splits)
next
  case (Some t)
  with assms(2) have "removeAll t (pendingSaves s) = []"
    by (intro removeAll_only) (auto simp: timerInv_def)
  with Some assms(1) show ?thesis
    by (auto simp: saveCurrentState_def scheduled_def Let_def split: option.splits)
qed

lemma sameTimers_inv: "sameTimers s s' \<Longrightarrow> timerInv s' = timerInv s"
  by (simp add: sameTimers_def timerInv_def)

lemma sameTimers_scheduled: "sameTimers s s' \<Longrightarrow> scheduled s' = scheduled s"
  by (simp add: sameTimers_def scheduled_def)

lemma saves_saveCurrentState:
  assumes "timerInv s0" and "sameTimers s0 s"
  shows "saves s0 (saveCurrentState s)"
proof (cases "isRestoring s")
  case True
  with assms show ?thesis
    by (simp add: saves_def saveCurrentState_restoring sameTimers_def)
next
  case False
  moreover have "timerInv s" using assms by (simp add: sameTimers_inv)
  ultimately have "scheduled (saveCurrentState s) \<and> nextTimer (saveCurrentState s) = Suc (nextTimer s)"
    by (rule saveCurrentState_scheduled)
  with False assms(2) show ?thesis by (simp add: saves_def sameTimers_def)
qed

lemma saves_again:
  assumes "timerInv s0" and "saves s0 s"
  shows "saves s0 (saveCurrentState s)"
proof (cases "isRestoring s0")
  case True
  with assms have "sameTimers s0 s" by (simp add: saves_def)
  with assms(1) show ?thesis by (rule saves_saveCurrentState)
next
  case False
  with assms(2) have r: "\<not> isRestoring s" and "scheduled s" and n: "nextTimer s0 < nextTimer s"
    by (simp_all add: saves_def)
  then have "timerInv s" by (simp add: scheduled_timerInv)
  with r have "scheduled (saveCurrentState s) \<and> nextTimer (saveCurrentState s) = Suc (nextTimer s)"
    by (rule saveCurrentState_scheduled)
  with False assms(2) n show ?thesis by (simp add: saves_def)
qed

lemma saves_same: "saves s0 s \<Longrightarrow> sameTimers s s' \<Longrightarrow> saves s0 s'"
  by (auto simp: saves_def sameTimers_def scheduled_def)

lemma sameTimers_refl [simp]: "sameTimers s s"
  by (simp add: sameTimers_def)

lemma sameTimers_trans: "sameTimers s s' \<Longrightarrow> sameTimers s' s'' \<Longrightarrow> sameTimers s s''"
  by (simp add: sameTimers_def)

lemma sameTimers_basic [simp]:
  "sameTimers s (displayChapterText c s)"
  "sameTimers s (saveChapterPosition i off s)"
  "sameTimers s (scrollOffset_update f1 s)"
  "sameTimers s (statusText_update f2 s)"
  "sameTimers s (currentChapter_update f3 s)"
  "sameTimers s (currentFile_update f4 s)"
  "sameTimers s (files_update f5 s)"
  "sameTimers s (webviewPanel_update f6 s)"
  "sameTimers s (panelVisible_update f7 s)"
  "sameTimers s (lastCharOffset_update f8 s)"
  "sameTimers s (lastScrollPercentage_update f9 s)"
  by (simp_all add: sameTimers_def)

lemma afterMove_saves:
  assumes "timerInv s0" and "sameTimers s0 s"
  shows "saves s0 (afterMove s)"
  unfolding afterMove_def Let_def
  by (rule saves_saveCurrentState[OF assms(1)])
    (rule sameTimers_trans[OF assms(2)], simp add: sameTimers_def)

lemma scrollLeft_saves: "timerInv s \<Longrightarrow> scrollLeft s = s \<or> saves s (scrollLeft s)"
  by (auto simp: scrollLeft_def intro!: afterMove_saves)

lemma previousPage_saves: "timerInv s \<Longrightarrow> previousPage s = s \<or> saves s (previousPage s)"
  by (auto simp: previousPage_def intro!: afterMove_saves)

lemma scrollRight_saves: "timerInv s \<Longrightarrow> scrollRight s = s \<or> saves s (scrollRight s)"
  by (auto simp: scrollRight_def intro!: afterMove_saves split: option.splits)

lemma nextPage_saves: "timerInv s \<Longrightarrow> nextPage s = s \<or> saves s (nextPage s)"
  by (auto simp: nextPage_def intro!: afterMove_saves split: option.splits)

lemma sync_form:
  assumes "loadedChapter s = Some ch"
  shows "\<exists>x. syncLastScrollPositionToStatusBar s =
           saveCurrentState (saveChapterPosition (currentChapter s) x
             (displayChapterText (Some ch) (s\<lparr>scrollOffset := x\<rparr>)))"
proof -
  from assms obtain r i where ri: "currentFile s = Some r" "currentChapter s = Some i"
    "chapterAt (heap s r) i = Some ch"
    by (auto simp: loadedChapter_def split: option.splits)
  define len where "len = int (length (getChapterContentAsString (Lines (content ch))))"
  define x where "x = max 0 (min (if lastCharOffset s = 0 \<and> positiveD (lastScrollPercentage s)
                                   then floorD (mulD (lastScrollPercentage s) len)
                                   else lastCharOffset s) (len - 1))"
  have "syncLastScrollPositionToStatusBar s =
          saveCurrentState (saveChapterPosition (currentChapter s) x
            (displayChapterText (Some ch) (s\<lparr>scrollOffset := x\<rparr>)))"
    unfolding syncLastScrollPositionToStatusBar_def Let_def x_def len_def
    by (simp only: ri option.case display_cursor) (simp add: ri split del: if_split)
  then show ?thesis ..
qed

lemma sync_saves:
  assumes "timerInv s0"
  shows "saves s0 s \<Longrightarrow> saves s0 (syncLastScrollPositionToStatusBar s)"
proof (cases "loadedChapter s")
  case None
  assume "saves s0 s"
  then show ?thesis by (simp add: sync_none[OF None])
next
  case (Some ch)
  assume a: "saves s0 s"
  from sync_form[OF Some] obtain x where
    x: "syncLastScrollPositionToStatusBar s =
          saveCurrentState (saveChapterPosition (currentChapter s) x
            (displayChapterText (Some ch) (s\<lparr>scrollOffset := x\<rparr>)))" ..
  have "saves s0 (saveChapterPosition (currentChapter s) x
                   (displayChapterText (Some ch) (s\<lparr>scrollOffset := x\<rparr>)))"
    by (rule saves_same[OF a]) (simp add: sameTimers_def)
  then show ?thesis
    unfolding x by (rule saves_again[OF assms])
qed

lemma disposed_saves:
  assumes "timerInv s0" and "saves s0 s"
  shows "saves s0 (onChapterPreviewDisposed s)"
  unfolding onChapterPreviewDisposed_def
  by (rule saves_same[OF sync_saves[OF assms]]) (simp add: sameTimers_def)

lemma hide_saves:
  assumes "timerInv s0" and "saves s0 s"
  shows "saves s0 (hide s)"
proof (cases "webviewPanel s")
  case False
  with assms show ?thesis by (simp add: hide_def)
next
  case True
  have "saves s0 (onChapterPreviewDisposed (syncLastScrollPositionToStatusBar s))"
    by (rule disposed_saves[OF assms(1) sync_saves[OF assms]])
  then have "saves s0 ((onChapterPreviewDisposed (syncLastScrollPositionToStatusBar s))
                        \<lparr>webviewPanel := False, panelVisible := False\<rparr>)"
    by (rule saves_same) (simp add: sameTimers_def)
  with True show ?thesis by (simp add: hide_def)
qed

lemma selectChapter_saves:
  assumes "timerInv s"
  shows "selectChapter i s = s \<or> saves s (selectChapter i s)"
proof (cases "currentFile s")
  case None
  then show ?thesis by (simp add: selectChapter_def)
next
  case (Some r)
  show ?thesis
  proof (cases i)
    case None
    with Some show ?thesis by (simp add: selectChapter_def)
  next
    case k: (Some k)
    show ?thesis
    proof (cases "k \<ge> 0 \<and> k < int (length (chapters (heap s r)))")
      case False
      with Some k show ?thesis by (auto simp: selectChapter_def)
    next
      case True
      define s1 where "s1 = (if currentChapter s \<noteq> None \<and> currentChapter s \<noteq> Some k
                            then saveChapterPosition (currentChapter s) (scrollOffset s) s else s)"
      define s3 where "s3 = s1\<lparr>currentChapter := Some k,
                               scrollOffset := getChapterPosition k (s1\<lparr>currentChapter := Some k\<rparr>)\<rparr>"
      define s4 where "s4 = displayChapterText (chapterAt (heap s3 r) k) s3"
      have "sameTimers s s4"
        by (simp add: sameTimers_def s4_def s3_def s1_def)
      with assms have s5: "saves s (saveCurrentState s4)" by (rule saves_saveCurrentState)
      then have "saves s (if isVisible (saveCurrentState s4) then hide (saveCurrentState s4)
                          else saveCurrentState s4)"
        using hide_saves[OF assms s5] by simp
      moreover have "selectChapter i s =
          (if isVisible (saveCurrentState s4) then hide (saveCurrentState s4) else saveCurrentState s4)"
        using True k Some by (simp add: selectChapter_def Let_def s4_def s3_def s1_def)
      ultimately show ?thesis by simp
    qed
  qed
qed

lemma removeFile_saves: "timerInv s \<Longrightarrow> removeFile fid s = s \<or> saves s (removeFile fid s)"
  by (auto simp: removeFile_def Let_def sameTimers_def intro!: saves_saveCurrentState
      split: option.splits)

lemma cleanup_saves: "timerInv s \<Longrightarrow> saves s (cleanupMissingFiles s)"
  by (auto simp: cleanupMissingFiles_def Let_def sameTimers_def intro!: saves_saveCurrentState
      split: option.splits)

lemma mutation_saves:
  assumes "timerInv s" and "isMutation e"
  shows "step s e = s \<or> saves s (step s e)"
  using assms
  by (cases e)
    (simp_all add: scrollLeft_saves scrollRight_saves previousPage_saves nextPage_saves
      selectChapter_saves removeFile_saves cleanup_saves)

lemma saves_timerInv: "timerInv s \<Longrightarrow> saves s s' \<Longrightarrow> timerInv s'"
  by (auto simp: saves_def sameTimers_inv scheduled_timerInv split: if_splits)

lemma timerInv_fires: "timerInv s \<Longrightarrow> timerInv (saveTimerFires t s)"
proof (cases "t \<in> set (pendingSaves s)")
  case False
  assume "timerInv s"
  with False show ?thesis by (simp add: saveTimerFires_def)
next
  case True
  assume a: "timerInv s"
  then have "\<forall>u\<in>set (pendingSaves s). u = t"
    using True by (metis option.inject timerInv_def)
  then have "removeAll t (pendingSaves s) = []" by (rule removeAll_only)
  with a True show ?thesis by (simp add: saveTimerFires_def timerInv_def)
qed

lemma timerInv_same: "sameTimers s s' \<Longrightarrow> timerInv s \<Longrightarrow> timerInv s'"
  by (simp add: sameTimers_inv)

lemma sync_timerInv: "timerInv s \<Longrightarrow> timerInv (syncLastScrollPositionToStatusBar s)"
proof (cases "loadedChapter s")
  case None
  assume "timerInv s" then show ?thesis by (simp add: sync_none[OF None])
next
  case (Some ch)
  assume a: "timerInv s"
  from sync_form[OF Some] obtain x where
    x: "syncLastScrollPositionToStatusBar s =
          saveCurrentState (saveChapterPosition (currentChapter s) x
            (displayChapterText (Some ch) (s\<lparr>scrollOffset := x\<rparr>)))" ..
  have "saves s (syncLastScrollPositionToStatusBar s)"
    unfolding x by (rule saves_saveCurrentState[OF a]) (simp add: sameTimers_def)
  then show ?thesis by (rule saves_timerInv[OF a])
qed

lemma disposed_timerInv: "timerInv s \<Longrightarrow> timerInv (onChapterPreviewDisposed s)"
  unfolding onChapterPreviewDisposed_def
  by (rule timerInv_same[OF _ sync_timerInv]) (simp_all add: sameTimers_def)

lemma hide_timerInv: "timerInv s \<Longrightarrow> timerInv (hide s)"
proof (cases "webviewPanel s")
  case False
  assume "timerInv s"
  with False show ?thesis by (simp add: hide_def)
next
  case True
  assume "timerInv s"
  then have "timerInv (onChapterPreviewDisposed (syncLastScrollPositionToStatusBar s))"
    by (intro disposed_timerInv sync_timerInv)
  then have "timerInv ((onChapterPreviewDisposed (syncLastScrollPositionToStatusBar s))
                        \<lparr>webviewPanel := False, panelVisible := False\<rparr>)"
    by (rule timerInv_same[rotated]) (simp add: sameTimers_def)
  with True show ?thesis by (simp add: hide_def)
qed

lemma timerInv_step: "timerInv s \<Longrightarrow> timerInv (step s e)"
proof (cases "isMutation e")
  case True
  assume a: "timerInv s"
  from mutation_saves[OF a True] show ?thesis
    using a by (auto intro: saves_timerInv)
next
  case False
  assume a: "timerInv s"
  have "timerInv (handleScrollPositionChanged p c s)" for p c
    by (rule timerInv_same[OF _ a]) (simp add: handleScrollPositionChanged_def sameTimers_def)
  moreover have "timerInv (redisplay ch s)" for ch
    by (rule timerInv_same[OF _ a]) (simp add: redisplay_def)
  ultimately show ?thesis
    using False a
    by (cases e) (simp_all add: timerInv_fires hide_timerInv disposed_timerInv)
qed

lemma timerInv_run: "timerInv s \<Longrightarrow> timerInv (run_events s evs)"
  unfolding run_events_def by (induction evs arbitrary: s) (simp_all add: timerInv_step)

lemma writes_sync [simp]: "writes (onChapterPreviewDisposed s) = writes s" "writes (hide s) = writes s"
  by (simp_all add: onChapterPreviewDisposed_def hide_def)

lemma writes_afterMove [simp]: "writes (afterMove s) = writes s"
  by (simp add: afterMove_def Let_def)

lemma writes_commands [simp]:
  "writes (scrollLeft s) = writes s" "writes (scrollRight s) = writes s"
  "writes (previousPage s) = writes s" "writes (nextPage s) = writes s"
  "writes (selectChapter i s) = writes s" "writes (removeFile fid s) = writes s"
  "writes (cleanupMissingFiles s) = writes s"
  by (auto simp: scrollLeft_def scrollRight_def previousPage_def nextPage_def selectChapter_def
      removeFile_def cleanupMissingFiles_def Let_def split: option.splits)

lemma writes_step: "(\<forall>t. e \<noteq> SaveTimer t) \<Longrightarrow> writes (step s e) = writes s"
  by (cases e) (simp_all add: handleScrollPositionChanged_def redisplay_def)


lemma saves_fresh:
  assumes "timerInv s" and "\<not> isRestoring s" and "saves s s'"
  shows "\<exists>t. pendingSaves s' = [t] \<and> saveDebounceTimer s' = Some t \<and> t \<notin> set (pendingSaves s)"
proof -
  from assms(2,3) obtain t where t: "pendingSaves s' = [t]" "saveDebounceTimer s' = Some t"
    "nextTimer s' = Suc t" "nextTimer s < nextTimer s'"
    by (auto simp: saves_def scheduled_def)
  have "u < nextTimer s" if "u \<in> set (pendingSaves s)" for u
    using assms(1) that by (auto simp: timerInv_def)
  with t have "t \<notin> set (pendingSaves s)" by force
  with t show ?thesis by simp
qed



section \<open>Restoring a stored document\<close>

lemma extractChapters_threeChapters:
  "extractChapters threeChapters =
     [\<lparr>title = str ''A'', startLine = 0, content = []\<rparr>,
      \<lparr>title = str ''B'', startLine = 1, content = []\<rparr>,
      \<lparr>title = str ''C'', startLine = 2, content = []\<rparr>]"
  by (simp add: threeChapters_def segmenter_defs upt_rec)

text \<open>
  Claim C7. During startup restore the stored chapter index of every restored document,
  pasted or read from a file, is checked against the number of chapters just computed,
  and an index out of range resets the chapter index and the offset to \<open>0\<close>.

  The code does this for the documents read from a file only. A stored pasted text of
  three chapters with the stored chapter index 5 and offset 40 is restored with index 5
  and offset 40; the same record for a text file with the same content is restored with
  index 0 and offset 0. When the pasted document becomes the current one, the cursor is
  reset to chapter 0 and offset 0, and the document still holds index 5.
\<close>

theorem restore_keeps_stale_chapter_of_pasted_text:
  "length (chapters (restoreFile noteHost 0 stalePaste)) = 3 \<and>
   status (restoreFile noteHost 0 stalePaste) = Active \<and>
   lastChapter (restoreFile noteHost 0 stalePaste) = Some 5 \<and>
   lastScrollOffset (restoreFile noteHost 0 stalePaste) = 40 \<and>
   length (chapters (restoreFile noteHost 0 staleText)) = 3 \<and>
   lastChapter (restoreFile noteHost 0 staleText) = Some 0 \<and>
   lastScrollOffset (restoreFile noteHost 0 staleText) = 0 \<and>
   currentChapter (restoreFileReadingPosition 0
      (scenarioReader\<lparr>heap := (\<lambda>r. restoreFile noteHost 0 stalePaste)\<rparr>)) = Some 0 \<and>
   scrollOffset (restoreFileReadingPosition 0
      (scenarioReader\<lparr>heap := (\<lambda>r. restoreFile noteHost 0 stalePaste)\<rparr>)) = 0 \<and>
   lastChapter (heap (restoreFileReadingPosition 0
      (scenarioReader\<lparr>heap := (\<lambda>r. restoreFile noteHost 0 stalePaste)\<rparr>)) 0) = Some 5"
  by (simp add: restoreFile_def stalePaste_def staleText_def savedPosition_def noteHost_def
      extractChaptersWithFallback_def extractChapters_threeChapters loadFileQuietly_def Let_def
      restoreFileReadingPosition_def)
    (simp add: str_def)

end
